theory Spec2Isabelle
  imports Complex_Main
begin

section \<open>Documents of the job marketplace\<close>

text \<open>
  The controllers of \<^verbatim>\<open>src/controllers/jobController.js\<close> work on three Mongoose
  collections: jobs, workers and reviews. A document identifier (an ObjectId) is a
  natural number here. Only paths that the schemas declare are stored: the properties
  \<^verbatim>\<open>startedAt\<close>, \<^verbatim>\<open>assignedAt\<close> and \<^verbatim>\<open>completedAt\<close> that the
  controllers assign are no paths of \<^verbatim>\<open>jobSchema\<close>, so they live on the document object
  of one request only; \<^verbatim>\<open>completedAt\<close> is echoed in the response of \<^verbatim>\<open>completeJob\<close>.
  The path that \<^verbatim>\<open>jobSchema\<close> declares for the time of completion is
  \<^verbatim>\<open>completionDate\<close>. Numbers (coordinates, distances, ratings) are rationals.

  A worker document carries the paths that the validators of \<^verbatim>\<open>workerSchema\<close> look at:
  the required \<^verbatim>\<open>name\<close>, \<^verbatim>\<open>email.email\<close>, \<^verbatim>\<open>phone.phone\<close> and \<^verbatim>\<open>password\<close>,
  \<^verbatim>\<open>aadhaar.verificationStatus\<close> and \<^verbatim>\<open>skills\<close> with their enumerations,
  \<^verbatim>\<open>experience\<close> with its minimum and \<^verbatim>\<open>bio\<close> with its maximal length.
\<close>

type_synonym oid = nat

datatype status = Posted | Assigned | Active | Completed

datatype payment = PaymentPending | PaymentCompleted | PaymentFailed

record address =
  city :: "string option"
  location :: "(rat \<times> rat) option"

record job =
  jid :: oid
  clientId :: oid
  workerId :: "oid option"
  title :: string
  description :: string
  image_url :: "string option"
  imagePublicId :: "string option"
  skill :: string
  urgency :: bool
  job_address :: address
  status :: status
  completionDate :: "int option"
  completionOTP :: "string option"
  paymentStatus :: payment
  createdAt :: int

record worker =
  wid :: oid
  name :: "string option"
  email :: "string option"
  phone :: "string option"
  verificationStatus :: "string option"
  worker_address :: address
  skills :: "string list"
  experience :: "rat option"
  bio :: "string option"
  password :: "string option"

datatype review_type = WorkerToClient | ClientToWorker

record review =
  r_clientId :: oid
  r_workerId :: oid
  r_jobId :: oid
  reviewType :: review_type
  rating :: rat
  review_text :: string

record db =
  jobs :: "job list"
  workers :: "worker list"
  reviews :: "review list"

text \<open>
  A response is the HTTP status code and the \<^verbatim>\<open>message\<close> of the JSON body. A route
  parameter \<^verbatim>\<open>:jobId\<close> is a string; \<open>ObjectId j\<close> is one that casts to the identifier
  \<open>j\<close>, \<open>NotAnId\<close> one that does not, on which every query on \<^verbatim>\<open>_id\<close> throws and the
  \<^verbatim>\<open>catch\<close> block of the controller answers 500.
\<close>

type_synonym response = "nat \<times> string"

datatype idparam = ObjectId oid | NotAnId

definition SKILLS :: "string list" where
  "SKILLS = [''ac-repair'', ''car-wash'', ''cleaner'', ''cook'', ''driver'', ''electrician'',
    ''furniture-assembler'', ''gardener'', ''helper'', ''interior-decorator'', ''mason'',
    ''mechanic'', ''nurse'', ''pest-control'', ''plumber'', ''sofa-cleaning'', ''tailor'',
    ''tiler'', ''tutor'', ''appliance-repair'', ''painter'', ''security-guard'', ''carpenter'',
    ''moving-packing'']"

fun status_name :: "status \<Rightarrow> string" where
  "status_name Posted = ''posted''"
| "status_name Assigned = ''assigned''"
| "status_name Active = ''active''"
| "status_name Completed = ''completed''"

subsection \<open>Store primitives\<close>

text \<open>
  \<^verbatim>\<open>findOne\<close> is \<^const>\<open>find\<close>, \<^verbatim>\<open>find\<close> is \<^const>\<open>filter\<close>. An update through
  \<^verbatim>\<open>findOneAndUpdate\<close>, \<^verbatim>\<open>findByIdAndUpdate\<close> or \<^verbatim>\<open>save\<close> changes the first
  document that matches, a \<^verbatim>\<open>findByIdAndDelete\<close> removes it. Each of them is one
  indivisible operation of the store.
\<close>

fun update_first :: "('a \<Rightarrow> bool) \<Rightarrow> ('a \<Rightarrow> 'a) \<Rightarrow> 'a list \<Rightarrow> 'a list" where
  "update_first P f [] = []"
| "update_first P f (x # xs) = (if P x then f x # xs else x # update_first P f xs)"

fun delete_first :: "('a \<Rightarrow> bool) \<Rightarrow> 'a list \<Rightarrow> 'a list" where
  "delete_first P [] = []"
| "delete_first P (x # xs) = (if P x then xs else x # delete_first P xs)"

definition findJobById :: "db \<Rightarrow> oid \<Rightarrow> job option" where
  "findJobById s j = find (\<lambda>x. jid x = j) (jobs s)"

definition findWorkerById :: "db \<Rightarrow> oid \<Rightarrow> worker option" where
  "findWorkerById s w = find (\<lambda>x. wid x = w) (workers s)"

definition updateJobById :: "oid \<Rightarrow> (job \<Rightarrow> job) \<Rightarrow> db \<Rightarrow> db" where
  "updateJobById j f s = s\<lparr>jobs := update_first (\<lambda>x. jid x = j) f (jobs s)\<rparr>"

text \<open>A body field that is absent or the empty string is falsy.\<close>

definition falsy :: "string option \<Rightarrow> bool" where
  "falsy v = (v = None \<or> v = Some [])"

text \<open>
  \<^verbatim>\<open>worker.save()\<close> validates the loaded document against \<^verbatim>\<open>workerSchema\<close> before it
  writes, and throws when a validator fails: a required string is present and not empty,
  an enumerated string is absent or one of the listed values, \<^verbatim>\<open>experience\<close> is absent
  or at least 0, \<^verbatim>\<open>bio\<close> is absent or at most 500 characters long.
\<close>

definition validateWorker :: "worker \<Rightarrow> bool" where
  "validateWorker wk =
    (\<not> falsy (name wk) \<and> \<not> falsy (email wk) \<and> \<not> falsy (phone wk) \<and> \<not> falsy (password wk)
     \<and> (case verificationStatus wk of None \<Rightarrow> True
         | Some v \<Rightarrow> v \<in> set [''pending'', ''verified'', ''rejected''])
     \<and> list_all (\<lambda>k. k \<in> set SKILLS) (skills wk)
     \<and> (case experience wk of None \<Rightarrow> True | Some e \<Rightarrow> 0 \<le> e)
     \<and> (case bio wk of None \<Rightarrow> True | Some b \<Rightarrow> length b \<le> 500))"

section \<open>Client operations\<close>

subsection \<open>createJob\<close>

text \<open>
  The address of the body is absent, a string that \<^verbatim>\<open>JSON.parse\<close> rejects, or an
  object. \<^verbatim>\<open>new Job(jobData)\<close> draws the identifier \<open>new_id\<close>; the first \<^verbatim>\<open>save\<close>
  validates against the schema (the trimmed title is required, the skill is one of
  \<^const>\<open>SKILLS\<close>) and inserts, and a duplicate \<^verbatim>\<open>_id\<close> is refused by the store. Both
  failures throw. \<open>upload\<close> is the outcome of the image upload, when a file was sent and
  the upload succeeded.
\<close>

datatype address_input = AddressAbsent | AddressUnparsable | AddressObject address

definition js_space :: "char \<Rightarrow> bool" where
  "js_space c = (of_char c \<in> {9, 10, 11, 12, 13, 32, 160 :: nat})"

definition trim :: "string \<Rightarrow> string" where
  "trim t = rev (dropWhile js_space (rev (dropWhile js_space t)))"

definition createJob ::
  "db \<Rightarrow> oid \<Rightarrow> string option \<Rightarrow> string option \<Rightarrow> string option \<Rightarrow> bool option \<Rightarrow>
   address_input \<Rightarrow> (string \<times> string) option \<Rightarrow> oid \<Rightarrow> int \<Rightarrow> db \<times> response" where
  "createJob s cid skill_in title_in description_in urgency_in address_in upload new_id now =
    (if falsy skill_in \<or> falsy title_in \<or> falsy description_in
     then (s, (400, ''Skill, title, and description are required''))
     else case address_in of
       AddressUnparsable \<Rightarrow> (s, (400, ''Invalid address format''))
     | AddressAbsent \<Rightarrow> (s, (400, ''Address is required for job posting''))
     | AddressObject a \<Rightarrow>
        if falsy (city a) \<and> location a = None
        then (s, (400, ''Address is required for job posting''))
        else if trim (the title_in) = [] \<or> the skill_in \<notin> set SKILLS
                \<or> new_id \<in> set (map jid (jobs s))
        then (s, (500, ''Server error while creating job''))
        else (s\<lparr>jobs := jobs s @
               [\<lparr>jid = new_id, clientId = cid, workerId = None,
                 title = trim (the title_in), description = the description_in,
                 image_url = map_option fst upload, imagePublicId = map_option snd upload,
                 skill = the skill_in,
                 urgency = (case urgency_in of None \<Rightarrow> False | Some u \<Rightarrow> u),
                 job_address = a, status = Posted, completionDate = None,
                 completionOTP = None,
                 paymentStatus = PaymentCompleted, createdAt = now\<rparr>]\<rparr>,
              (200, ''Job posted successfully'')))"

subsection \<open>cancelJob\<close>

text \<open>The deletion of the image at the media host leaves the store alone.\<close>

definition cancelJob :: "db \<Rightarrow> oid \<Rightarrow> idparam \<Rightarrow> db \<times> response" where
  "cancelJob s cid p =
    (case p of
       NotAnId \<Rightarrow> (s, (500, ''Error cancelling job''))
     | ObjectId j \<Rightarrow>
        (case find (\<lambda>x. jid x = j \<and> clientId x = cid) (jobs s) of
           None \<Rightarrow> (s, (404, ''Job not found''))
         | Some job \<Rightarrow>
            if status job \<notin> {Posted, Assigned}
            then (s, (400, ''Cannot cancel a job that is already '' @ status_name (status job)))
            else (s\<lparr>jobs := delete_first (\<lambda>x. jid x = j) (jobs s)\<rparr>,
                  (200, ''Job cancelled successfully''))))"

subsection \<open>startJob\<close>

definition startJob :: "db \<Rightarrow> oid \<Rightarrow> idparam \<Rightarrow> db \<times> response" where
  "startJob s cid p =
    (case p of
       NotAnId \<Rightarrow> (s, (500, ''Error starting job''))
     | ObjectId j \<Rightarrow>
        (case find (\<lambda>x. jid x = j \<and> clientId x = cid) (jobs s) of
           None \<Rightarrow> (s, (404, ''Job not found''))
         | Some job \<Rightarrow>
            if status job \<noteq> Assigned
            then (s, (400, ''Job must be assigned to start''))
            else (updateJobById j (\<lambda>x. x\<lparr>status := Active\<rparr>) s,
                  (200, ''Job started successfully''))))"

subsection \<open>completeJob\<close>

text \<open>
  The third component is \<^verbatim>\<open>job.completedAt\<close> of the response body; the assignment
  \<^verbatim>\<open>job.completedAt = new Date()\<close> reaches no path of the schema, and
  \<^verbatim>\<open>completionDate\<close> is not assigned. After \<^verbatim>\<open>job.save()\<close> the controller looks up
  the worker of the job and, when there is one, increments \<^verbatim>\<open>completedJobs\<close> and saves
  the worker document. The counter is no path of the worker schema and is not stored,
  but the \<^verbatim>\<open>save\<close> validates the document: when it throws, the \<^verbatim>\<open>catch\<close> block
  answers 500 and the job stays stored as completed.
\<close>

definition incrementCompletedJobs :: "db \<Rightarrow> oid option \<Rightarrow> bool" where
  "incrementCompletedJobs s w =
    (case w of
       None \<Rightarrow> True
     | Some v \<Rightarrow> (case findWorkerById s v of None \<Rightarrow> True | Some wk \<Rightarrow> validateWorker wk))"

definition completeJob ::
  "db \<Rightarrow> oid \<Rightarrow> idparam \<Rightarrow> string option \<Rightarrow> int \<Rightarrow> db \<times> response \<times> int option" where
  "completeJob s cid p otp now =
    (if falsy otp then (s, (400, ''OTP is required to complete the job''), None)
     else case p of
       NotAnId \<Rightarrow> (s, (500, ''Error completing job''), None)
     | ObjectId j \<Rightarrow>
        (case find (\<lambda>x. jid x = j \<and> clientId x = cid) (jobs s) of
           None \<Rightarrow> (s, (404, ''Job not found''), None)
         | Some job \<Rightarrow>
            if status job \<noteq> Active
            then (s, (400, ''Job must be active to complete''), None)
            else if falsy (completionOTP job)
            then (s, (400, ''No OTP generated for this job. Ask the worker to generate one.''),
                  None)
            else if completionOTP job \<noteq> otp
            then (s, (400, ''Invalid OTP. Please check and try again.''), None)
            else (let s' = updateJobById j
                             (\<lambda>x. x\<lparr>status := Completed, completionOTP := None\<rparr>) s
                  in if incrementCompletedJobs s' (workerId job)
                     then (s', (200, ''Job completed successfully''), Some now)
                     else (s', (500, ''Error completing job''), None))))"

section \<open>Worker operations\<close>

subsection \<open>acceptJob\<close>

text \<open>
  The claim is the conditional update: the first job with this identifier, status
  \<^verbatim>\<open>posted\<close> and no worker gets the worker and status \<^verbatim>\<open>assigned\<close>; the updated
  document comes back, or nothing when no job matches.
\<close>

definition claimable :: "oid \<Rightarrow> job \<Rightarrow> bool" where
  "claimable j x = (jid x = j \<and> status x = Posted \<and> workerId x = None)"

definition claim :: "oid \<Rightarrow> oid \<Rightarrow> db \<Rightarrow> (db \<times> job) option" where
  "claim j w s =
    (case find (claimable j) (jobs s) of
       None \<Rightarrow> None
     | Some x \<Rightarrow>
        Some (s\<lparr>jobs := update_first (claimable j)
                          (\<lambda>x. x\<lparr>workerId := Some w, status := Assigned\<rparr>) (jobs s)\<rparr>,
              x\<lparr>workerId := Some w, status := Assigned\<rparr>))"

definition rollback :: "oid \<Rightarrow> db \<Rightarrow> db" where
  "rollback j s = updateJobById j (\<lambda>x. x\<lparr>workerId := None, status := Posted\<rparr>) s"

definition activeJobs :: "db \<Rightarrow> oid \<Rightarrow> job list" where
  "activeJobs s w = filter (\<lambda>x. workerId x = Some w \<and> status x \<in> {Assigned, Active}) (jobs s)"

definition reread :: "db \<Rightarrow> oid \<Rightarrow> response" where
  "reread s j =
    (case findJobById s j of
       None \<Rightarrow> (404, ''Job not found'')
     | Some existingJob \<Rightarrow>
        if workerId existingJob \<noteq> None
        then (409, ''Another worker selected this job before you'')
        else (400, ''Job is no longer available''))"

definition acceptJob :: "db \<Rightarrow> oid \<Rightarrow> idparam \<Rightarrow> db \<times> response" where
  "acceptJob s w p =
    (if activeJobs s w \<noteq> []
     then (s, (400, ''You already have an active job. Complete it before accepting a new one.''))
     else case p of
       NotAnId \<Rightarrow> (s, (500, ''Error accepting job''))
     | ObjectId j \<Rightarrow>
        (case claim j w s of
           None \<Rightarrow> (s, reread s j)
         | Some (s', job) \<Rightarrow>
            (case findWorkerById s' w of
               None \<Rightarrow> (rollback j s', (404, ''Worker not found''))
             | Some wk \<Rightarrow>
                if skill job \<notin> set (skills wk)
                then (rollback j s', (400, ''You do not have the required skill for this job''))
                else (s', (200, ''Job accepted successfully'')))))"

subsection \<open>getCompletionOTP\<close>

text \<open>
  \<open>r\<close> is the value of \<^verbatim>\<open>Math.random()\<close>, a number from 0 up to but not including 1. The
  code is the decimal numeral of \<^verbatim>\<open>Math.floor(100000 + r * 900000)\<close>.
\<close>

definition digit :: "nat \<Rightarrow> char" where
  "digit d = ''0123456789'' ! d"

fun toString :: "nat \<Rightarrow> string" where
  "toString n = (if n < 10 then [digit n] else toString (n div 10) @ [digit (n mod 10)])"

declare toString.simps [simp del]

definition mintOTP :: "rat \<Rightarrow> string" where
  "mintOTP r = toString (nat \<lfloor>100000 + r * 900000\<rfloor>)"

definition getCompletionOTP ::
  "db \<Rightarrow> oid \<Rightarrow> idparam \<Rightarrow> rat \<Rightarrow> db \<times> response \<times> string option" where
  "getCompletionOTP s w p r =
    (case p of
       NotAnId \<Rightarrow> (s, (500, ''Error generating completion OTP''), None)
     | ObjectId j \<Rightarrow>
        (case find (\<lambda>x. jid x = j \<and> workerId x = Some w) (jobs s) of
           None \<Rightarrow> (s, (404, ''Job not found or you are not assigned to this job''), None)
         | Some job \<Rightarrow>
            if status job \<noteq> Active
            then (s, (400, ''Job must be active to generate completion OTP''), None)
            else (updateJobById j (\<lambda>x. x\<lparr>completionOTP := Some (mintOTP r)\<rparr>) s,
                  (200, ''Share this OTP with the client to complete the job. This OTP will be valid for completing the job.''),
                  Some (mintOTP r))))"

subsection \<open>cancelJobByWorker\<close>

definition cancelJobByWorker :: "db \<Rightarrow> oid \<Rightarrow> idparam \<Rightarrow> db \<times> response" where
  "cancelJobByWorker s w p =
    (case p of
       NotAnId \<Rightarrow> (s, (500, ''Error cancelling job''))
     | ObjectId j \<Rightarrow>
        (case find (\<lambda>x. jid x = j \<and> workerId x = Some w) (jobs s) of
           None \<Rightarrow> (s, (404, ''Job not found or you are not assigned to this job''))
         | Some job \<Rightarrow>
            if status job \<noteq> Assigned \<and> status job \<noteq> Active
            then (s, (400, ''Cannot cancel a job with status: '' @ status_name (status job)))
            else (updateJobById j
                    (\<lambda>x. x\<lparr>status := Posted, workerId := None, completionOTP := None\<rparr>) s,
                  (200, ''Job cancelled successfully. The job is now available for other workers.''))))"

subsection \<open>getAvailableJobs\<close>

text \<open>
  The query string gives \<^verbatim>\<open>page\<close> and \<^verbatim>\<open>limit\<close> (integers here), the skill filter,
  \<^verbatim>\<open>maxDistance\<close> as \<^verbatim>\<open>parseFloat\<close> reads it, the urgency filter and \<^verbatim>\<open>sortBy\<close>. A
  parameter that is not supplied is \<open>None\<close> and takes the default of the destructuring
  pattern: page 1, limit 50, maxDistance 25, sortBy \<^verbatim>\<open>'distance'\<close>.
\<close>

datatype number = Num rat | NaN

record jobs_query =
  q_page :: "int option"
  q_limit :: "int option"
  q_skill :: "string option"
  q_maxDistance :: "number option"
  q_urgency :: "string option"
  q_sortBy :: "string option"

definition isValidCoordinates :: "rat \<times> rat \<Rightarrow> bool" where
  "isValidCoordinates c = (case c of (lat, lon) \<Rightarrow> - 90 \<le> lat \<and> lat \<le> 90 \<and> - 180 \<le> lon \<and> lon \<le> 180)"

definition hasValidLocation :: "address \<Rightarrow> bool" where
  "hasValidLocation a = (case location a of None \<Rightarrow> False | Some c \<Rightarrow> isValidCoordinates c)"

text \<open>
  \<open>road\<close> is the distance estimator (the routing service, or the great-circle formula
  when it fails). The loop fills the object \<^verbatim>\<open>distances\<close>, keyed by job identifier, for
  the jobs that have valid coordinates.
\<close>

definition calculateJobDistances ::
  "(rat \<times> rat \<Rightarrow> rat \<times> rat \<Rightarrow> rat) \<Rightarrow> rat \<times> rat \<Rightarrow> job list \<Rightarrow> (oid \<rightharpoonup> rat)" where
  "calculateJobDistances road workerLocation js =
    (if \<not> isValidCoordinates workerLocation then Map.empty
     else fold (\<lambda>x distances.
                 if hasValidLocation (job_address x)
                 then distances(jid x \<mapsto> road workerLocation (the (location (job_address x))))
                 else distances) js Map.empty)"

text \<open>\<^verbatim>\<open>distances[job._id] || null\<close>: a distance of zero is falsy and becomes null.\<close>

definition or_null :: "rat option \<Rightarrow> rat option" where
  "or_null d = (if d = Some 0 then None else d)"

definition inRange :: "number \<Rightarrow> rat option \<Rightarrow> bool" where
  "inRange maxDistance d =
    (case d of None \<Rightarrow> True
     | Some x \<Rightarrow> (case maxDistance of NaN \<Rightarrow> False | Num m \<Rightarrow> x \<le> m))"

definition compareJobs :: "string \<Rightarrow> job \<times> rat option \<Rightarrow> job \<times> rat option \<Rightarrow> rat" where
  "compareJobs sortBy a b =
    (if sortBy = ''distance''
     then (case (snd a, snd b) of
             (None, None) \<Rightarrow> of_int (createdAt (fst b) - createdAt (fst a))
           | (None, Some y) \<Rightarrow> 1
           | (Some x, None) \<Rightarrow> - 1
           | (Some x, Some y) \<Rightarrow> x - y)
     else of_int (createdAt (fst b) - createdAt (fst a)))"

text \<open>
  \<^verbatim>\<open>Array.prototype.sort\<close> with a comparator is a stable sort: an element goes before
  the first one it does not compare greater than.
\<close>

fun insort_cmp :: "('a \<Rightarrow> 'a \<Rightarrow> rat) \<Rightarrow> 'a \<Rightarrow> 'a list \<Rightarrow> 'a list" where
  "insort_cmp c x [] = [x]"
| "insort_cmp c x (y # ys) = (if c x y \<le> 0 then x # y # ys else y # insort_cmp c x ys)"

definition sort_cmp :: "('a \<Rightarrow> 'a \<Rightarrow> rat) \<Rightarrow> 'a list \<Rightarrow> 'a list" where
  "sort_cmp c xs = foldr (insort_cmp c) xs []"

text \<open>\<^verbatim>\<open>Array.prototype.slice\<close>: a negative index counts from the end.\<close>

definition js_slice :: "int \<Rightarrow> int \<Rightarrow> 'a list \<Rightarrow> 'a list" where
  "js_slice start fin xs =
    (let len = int (length xs);
         k = (if start < 0 then max (len + start) 0 else min start len);
         final = (if fin < 0 then max (len + fin) 0 else min fin len)
     in take (nat (final - k)) (drop (nat k) xs))"

definition matchesQuery :: "worker \<Rightarrow> jobs_query \<Rightarrow> job \<Rightarrow> bool" where
  "matchesQuery wk q x =
    (status x = Posted \<and> workerId x = None
     \<and> (if \<not> falsy (q_skill q) \<and> q_skill q \<noteq> Some ''All Services''
            \<and> q_skill q \<noteq> Some ''For you''
         then Some (skill x) = q_skill q
         else if q_skill q = Some ''For you'' then skill x \<in> set (skills wk) else True)
     \<and> (if q_urgency q = Some ''true'' then urgency x else True))"

definition getAvailableJobs ::
  "db \<Rightarrow> oid \<Rightarrow> jobs_query \<Rightarrow> (rat \<times> rat \<Rightarrow> rat \<times> rat \<Rightarrow> rat) \<Rightarrow>
   response \<times> (job \<times> rat option) list" where
  "getAvailableJobs s w q road =
    (case findWorkerById s w of
       None \<Rightarrow> ((404, ''Worker not found''), [])
     | Some wk \<Rightarrow>
        (let page = (case q_page q of None \<Rightarrow> 1 | Some n \<Rightarrow> n);
             limit = (case q_limit q of None \<Rightarrow> 50 | Some n \<Rightarrow> n);
             maxDistance = (case q_maxDistance q of None \<Rightarrow> Num 25 | Some m \<Rightarrow> m);
             sortBy = (case q_sortBy q of None \<Rightarrow> ''distance'' | Some b \<Rightarrow> b);
             found = sort_key (\<lambda>x. - createdAt x) (filter (matchesQuery wk q) (jobs s));
             jobsWithDistance =
               (if hasValidLocation (worker_address wk)
                then (let distances =
                            calculateJobDistances road (the (location (worker_address wk))) found
                      in sort_cmp (compareJobs sortBy)
                           (filter (\<lambda>jd. inRange maxDistance (snd jd))
                              (map (\<lambda>x. (x, or_null (distances (jid x)))) found)))
                else map (\<lambda>x. (x, None)) found);
             skip = (page - 1) * limit
         in ((200, []), js_slice skip (skip + limit) jobsWithDistance)))"

section \<open>Reviews\<close>

text \<open>
  The rating of the body is absent or a number; zero is falsy. A review text longer than
  the schema's \<^verbatim>\<open>maxlength\<close> of 500 fails validation in \<^verbatim>\<open>save\<close>, which throws.
\<close>

definition rateWorker ::
  "db \<Rightarrow> oid \<Rightarrow> idparam \<Rightarrow> rat option \<Rightarrow> string option \<Rightarrow> db \<times> response" where
  "rateWorker s cid p rating_in review_in =
    (case rating_in of
       None \<Rightarrow> (s, (400, ''Rating must be between 1 and 5''))
     | Some r \<Rightarrow>
        if r = 0 \<or> r < 1 \<or> r > 5 then (s, (400, ''Rating must be between 1 and 5''))
        else case p of
          NotAnId \<Rightarrow> (s, (500, ''Error rating worker''))
        | ObjectId j \<Rightarrow>
           (case find (\<lambda>x. jid x = j \<and> clientId x = cid) (jobs s) of
              None \<Rightarrow> (s, (404, ''Job not found''))
            | Some job \<Rightarrow>
               if status job \<noteq> Completed then (s, (400, ''Can only rate completed jobs''))
               else case workerId job of
                 None \<Rightarrow> (s, (400, ''No worker assigned to this job''))
               | Some w \<Rightarrow>
                  if find (\<lambda>v. r_jobId v = j \<and> r_clientId v = cid
                                \<and> reviewType v = ClientToWorker) (reviews s) \<noteq> None
                  then (s, (400, ''Worker already rated for this job''))
                  else if length (case review_in of None \<Rightarrow> [] | Some t \<Rightarrow> t) > 500
                  then (s, (500, ''Error rating worker''))
                  else (s\<lparr>reviews := reviews s @
                          [\<lparr>r_clientId = cid, r_workerId = w, r_jobId = j,
                            reviewType = ClientToWorker, rating = r,
                            review_text = (case review_in of None \<Rightarrow> [] | Some t \<Rightarrow> t)\<rparr>]\<rparr>,
                        (200, ''Worker rated successfully''))))"

definition rateClient ::
  "db \<Rightarrow> oid \<Rightarrow> idparam \<Rightarrow> rat option \<Rightarrow> string option \<Rightarrow> db \<times> response" where
  "rateClient s w p rating_in review_in =
    (case rating_in of
       None \<Rightarrow> (s, (400, ''Rating must be between 1 and 5''))
     | Some r \<Rightarrow>
        if r = 0 \<or> r < 1 \<or> r > 5 then (s, (400, ''Rating must be between 1 and 5''))
        else case p of
          NotAnId \<Rightarrow> (s, (500, ''Error rating client''))
        | ObjectId j \<Rightarrow>
           (case find (\<lambda>x. jid x = j \<and> workerId x = Some w) (jobs s) of
              None \<Rightarrow> (s, (404, ''Job not found''))
            | Some job \<Rightarrow>
               if status job \<noteq> Completed then (s, (400, ''Can only rate completed jobs''))
               else if find (\<lambda>v. r_jobId v = j \<and> r_workerId v = w
                                  \<and> reviewType v = WorkerToClient) (reviews s) \<noteq> None
               then (s, (400, ''Client already rated for this job''))
               else if length (case review_in of None \<Rightarrow> [] | Some t \<Rightarrow> t) > 500
               then (s, (500, ''Error rating client''))
               else (s\<lparr>reviews := reviews s @
                       [\<lparr>r_clientId = clientId job, r_workerId = w, r_jobId = j,
                         reviewType = WorkerToClient, rating = r,
                         review_text = (case review_in of None \<Rightarrow> [] | Some t \<Rightarrow> t)\<rparr>]\<rparr>,
                     (200, ''Client rated successfully''))))"

section \<open>Histories of requests\<close>

text \<open>
  The stores that a sequence of requests can produce from the empty collections. Worker
  documents are written by other controllers, at any time. The value that
  \<^verbatim>\<open>Math.random\<close> hands to \<^const>\<open>getCompletionOTP\<close> lies in the interval from 0 to 1.
\<close>

inductive reachable :: "db \<Rightarrow> bool" where
  r_init: "reachable \<lparr>jobs = [], workers = [], reviews = []\<rparr>"
| r_workers: "reachable s \<Longrightarrow> reachable (s\<lparr>workers := ws\<rparr>)"
| r_create: "reachable s \<Longrightarrow> reachable (fst (createJob s cid sk ti de ur ad up nid now))"
| r_cancel: "reachable s \<Longrightarrow> reachable (fst (cancelJob s cid p))"
| r_start: "reachable s \<Longrightarrow> reachable (fst (startJob s cid p))"
| r_complete: "reachable s \<Longrightarrow> reachable (fst (completeJob s cid p otp now))"
| r_accept: "reachable s \<Longrightarrow> reachable (fst (acceptJob s w p))"
| r_otp: "reachable s \<Longrightarrow> 0 \<le> r \<Longrightarrow> r < 1 \<Longrightarrow> reachable (fst (getCompletionOTP s w p r))"
| r_cancel_worker: "reachable s \<Longrightarrow> reachable (fst (cancelJobByWorker s w p))"
| r_rate_worker: "reachable s \<Longrightarrow> reachable (fst (rateWorker s cid p ra re))"
| r_rate_client: "reachable s \<Longrightarrow> reachable (fst (rateClient s w p ra re))"

section \<open>Concurrent accept requests\<close>












section \<open>Reading a result\<close>

abbreviation code_of :: "db \<times> response \<Rightarrow> nat" where
  "code_of r \<equiv> fst (snd r)"

abbreviation code3_of :: "db \<times> response \<times> 'a \<Rightarrow> nat" where
  "code3_of r \<equiv> fst (fst (snd r))"

section \<open>Well-formed stores\<close>

text \<open>
  The store refuses a second document with the same \<^verbatim>\<open>_id\<close>. A job document is in
  order when its completion code, if any, is a non-empty string on an active job, and
  when it has a worker exactly in the three states after \<^verbatim>\<open>posted\<close>.
\<close>

definition job_ok :: "job \<Rightarrow> bool" where
  "job_ok x = ((completionOTP x \<noteq> None \<longrightarrow> status x = Active)
     \<and> (workerId x \<noteq> None \<longleftrightarrow> status x \<in> {Assigned, Active, Completed})
     \<and> completionOTP x \<noteq> Some [])"

definition store_ok :: "db \<Rightarrow> bool" where
  "store_ok s = (distinct (map jid (jobs s)) \<and> (\<forall>x\<in>set (jobs s). job_ok x))"

section \<open>A sample history\<close>

definition ex_plumber :: worker where
  "ex_plumber = \<lparr>wid = 7, name = Some ''Asha'', email = Some ''asha@example.org'',
     phone = Some ''9000000007'', verificationStatus = None,
     worker_address = \<lparr>city = Some ''Pune'', location = Some (37 / 2, 369 / 5)\<rparr>,
     skills = [''plumber'', ''tiler''], experience = Some 4, bio = None,
     password = Some ''$2b$10$hash7''\<rparr>"

definition ex_electrician :: worker where
  "ex_electrician = \<lparr>wid = 8, name = Some ''Ravi'', email = Some ''ravi@example.org'',
     phone = Some ''9000000008'', verificationStatus = Some ''verified'',
     worker_address = \<lparr>city = Some ''Pune'', location = None\<rparr>,
     skills = [''electrician''], experience = None, bio = None,
     password = Some ''$2b$10$hash8''\<rparr>"

definition ex_job :: job where
  "ex_job = \<lparr>jid = 41, clientId = 10, workerId = None, title = ''Fix tap'',
     description = ''Leaking tap'', image_url = None, imagePublicId = None, skill = ''plumber'',
     urgency = False, job_address = \<lparr>city = Some ''Pune'', location = Some (1851 / 100, 369 / 5)\<rparr>,
     status = Posted, completionDate = None, completionOTP = None,
     paymentStatus = PaymentCompleted, createdAt = 100\<rparr>"

definition ex_empty :: db where
  "ex_empty = \<lparr>jobs = [], workers = [], reviews = []\<rparr>"

definition ex_staffed :: db where
  "ex_staffed = ex_empty\<lparr>workers := [ex_plumber, ex_electrician]\<rparr>"

definition ex_posted :: db where
  "ex_posted = fst (createJob ex_staffed 10 (Some ''plumber'') (Some '' Fix tap'')
     (Some ''Leaking tap'') None
     (AddressObject \<lparr>city = Some ''Pune'', location = Some (1851 / 100, 369 / 5)\<rparr>) None 41 100)"

definition ex_assigned :: db where
  "ex_assigned = fst (acceptJob ex_posted 7 (ObjectId 41))"

definition ex_active :: db where
  "ex_active = fst (startJob ex_assigned 10 (ObjectId 41))"

definition ex_minted :: db where
  "ex_minted = fst (getCompletionOTP ex_active 7 (ObjectId 41) (382913 / 900000))"

definition ex_completed :: db where
  "ex_completed = fst (completeJob ex_minted 10 (ObjectId 41) (Some ''482913'') 200)"

definition ex_job2 :: job where
  "ex_job2 = \<lparr>jid = 42, clientId = 11, workerId = None, title = ''Lay tiles'',
     description = ''Bathroom floor'', image_url = None, imagePublicId = None, skill = ''tiler'',
     urgency = True, job_address = \<lparr>city = Some ''Pune'', location = None\<rparr>,
     status = Posted, completionDate = None, completionOTP = None,
     paymentStatus = PaymentCompleted, createdAt = 150\<rparr>"

definition ex_busy :: db where
  "ex_busy = fst (createJob ex_assigned 11 (Some ''tiler'') (Some ''Lay tiles'')
     (Some ''Bathroom floor'') (Some True)
     (AddressObject \<lparr>city = Some ''Pune'', location = None\<rparr>) None 42 150)"

section \<open>Orders of a listing and whole numbers\<close>

text \<open>
  Closest first, jobs without distance last and among themselves newest first; and
  newest first.
\<close>

definition by_distance :: "job \<times> rat option \<Rightarrow> job \<times> rat option \<Rightarrow> bool" where
  "by_distance a b =
    (case (snd a, snd b) of
       (None, None) \<Rightarrow> createdAt (fst b) \<le> createdAt (fst a)
     | (None, Some y) \<Rightarrow> False
     | (Some x, None) \<Rightarrow> True
     | (Some x, Some y) \<Rightarrow> x \<le> y)"

definition by_recency :: "job \<times> rat option \<Rightarrow> job \<times> rat option \<Rightarrow> bool" where
  "by_recency a b = (createdAt (fst b) \<le> createdAt (fst a))"

text \<open>
  The same on the jobs themselves. The distance that the handler computes for a job is
  the estimator's value from the worker's coordinates to the job's, and none when
  either has no valid coordinates. A job is within reach when it has no computed
  distance, or one that is not zero and at most \<^verbatim>\<open>maxDistance\<close>. In the order by
  distance a job with computed distance comes before one without; a job whose computed
  distance is zero is left out of both: its place and its filtering are not specified
  here.
\<close>

definition page_of :: "jobs_query \<Rightarrow> int" where
  "page_of q = (case q_page q of None \<Rightarrow> 1 | Some n \<Rightarrow> n)"

definition limit_of :: "jobs_query \<Rightarrow> int" where
  "limit_of q = (case q_limit q of None \<Rightarrow> 50 | Some n \<Rightarrow> n)"

definition maxDistance_of :: "jobs_query \<Rightarrow> number" where
  "maxDistance_of q = (case q_maxDistance q of None \<Rightarrow> Num 25 | Some m \<Rightarrow> m)"

definition estimate :: "(rat \<times> rat \<Rightarrow> rat \<times> rat \<Rightarrow> rat) \<Rightarrow> worker \<Rightarrow> job \<Rightarrow> rat option" where
  "estimate road wk x =
    (case location (worker_address wk) of
       None \<Rightarrow> None
     | Some wl \<Rightarrow>
        if isValidCoordinates wl \<and> hasValidLocation (job_address x)
        then Some (road wl (the (location (job_address x))))
        else None)"

definition within_reach ::
  "(rat \<times> rat \<Rightarrow> rat \<times> rat \<Rightarrow> rat) \<Rightarrow> worker \<Rightarrow> jobs_query \<Rightarrow> job \<Rightarrow> bool" where
  "within_reach road wk q x =
    (case estimate road wk x of
       None \<Rightarrow> True
     | Some d \<Rightarrow> d \<noteq> 0 \<and> (case maxDistance_of q of NaN \<Rightarrow> False | Num m \<Rightarrow> d \<le> m))"

definition closer_first ::
  "(rat \<times> rat \<Rightarrow> rat \<times> rat \<Rightarrow> rat) \<Rightarrow> worker \<Rightarrow> job \<Rightarrow> job \<Rightarrow> bool" where
  "closer_first road wk a b =
    (estimate road wk a = Some 0 \<or> estimate road wk b = Some 0
     \<or> (case (estimate road wk a, estimate road wk b) of
           (None, None) \<Rightarrow> createdAt b \<le> createdAt a
         | (None, Some y) \<Rightarrow> False
         | (Some x, None) \<Rightarrow> True
         | (Some x, Some y) \<Rightarrow> x \<le> y))"

definition newest_first :: "job \<Rightarrow> job \<Rightarrow> bool" where
  "newest_first a b = (createdAt b \<le> createdAt a)"

text \<open>A rating is a whole number when it equals its floor.\<close>

definition is_whole :: "rat \<Rightarrow> bool" where
  "is_whole r = (of_int \<lfloor>r\<rfloor> = r)"

section \<open>Invariants of a run of accept requests\<close>








section \<open>More sample data\<close>

definition ex_far_job :: job where
  "ex_far_job = ex_job2\<lparr>job_address := \<lparr>city = Some ''Pune'', location = Some (371 / 20, 369 / 5)\<rparr>\<rparr>"

definition ex_market :: db where
  "ex_market = \<lparr>jobs = [ex_job, ex_far_job], workers = [ex_plumber, ex_electrician], reviews = []\<rparr>"

text \<open>A crude estimator, 111 km for a degree, in place of the routing service.\<close>

definition ex_road :: "rat \<times> rat \<Rightarrow> rat \<times> rat \<Rightarrow> rat" where
  "ex_road a b = 111 * (\<bar>fst a - fst b\<bar> + \<bar>snd a - snd b\<bar>)"

definition ex_query :: jobs_query where
  "ex_query = \<lparr>q_page = None, q_limit = None, q_skill = None, q_maxDistance = None,
     q_urgency = None, q_sortBy = None\<rparr>"

text \<open>
  The store of the sample history with the code generated, where the document of the
  plumber lists a skill that the schema does not know.
\<close>

definition ex_legacy :: db where
  "ex_legacy = ex_minted\<lparr>workers := [ex_plumber\<lparr>skills := [''plumber'', ''welder'']\<rparr>, ex_electrician]\<rparr>"

text \<open>A job at the plumber's own coordinates.\<close>

definition ex_near_job :: job where
  "ex_near_job = ex_job2\<lparr>job_address := \<lparr>city = Some ''Pune'', location = Some (37 / 2, 369 / 5)\<rparr>\<rparr>"

definition ex_doorstep :: db where
  "ex_doorstep = \<lparr>jobs = [ex_job, ex_near_job], workers = [ex_plumber, ex_electrician], reviews = []\<rparr>"

definition ex_query_distance :: jobs_query where
  "ex_query_distance = ex_query\<lparr>q_sortBy := Some ''distance''\<rparr>"

definition ex_query_tight :: jobs_query where
  "ex_query_tight = ex_query\<lparr>q_maxDistance := Some (Num (- 1))\<rparr>"



section \<open>Facts about the store primitives and the well-formed stores\<close>

lemma find_SomeD: "find P xs = Some x \<Longrightarrow> x \<in> set xs \<and> P x"
  by (induction xs) (auto split: if_splits)

lemma find_None_iff2: "find P xs = None \<longleftrightarrow> (\<forall>x\<in>set xs. \<not> P x)"
  by (induction xs) auto

lemma map_jid_update_first:
  "(\<And>x. jid (f x) = jid x) \<Longrightarrow> map jid (update_first P f xs) = map jid xs"
  by (induction xs) auto

lemma set_update_first:
  "y \<in> set (update_first P f xs) \<Longrightarrow> y \<in> set xs \<or> (\<exists>x\<in>set xs. P x \<and> y = f x)"
  by (induction xs) (auto split: if_splits)

lemma update_first_id: "(\<And>x. P x \<Longrightarrow> f x = x) \<Longrightarrow> update_first P f xs = xs"
  by (induction xs) auto

lemma find_update_first_by_id:
  "(\<And>x. jid (f x) = jid x) \<Longrightarrow>
   find (\<lambda>x. jid x = j) (update_first (\<lambda>x. jid x = j) f xs) = map_option f (find (\<lambda>x. jid x = j) xs)"
  by (induction xs) auto

lemma unique_by_id:
  "distinct (map jid xs) \<Longrightarrow> x \<in> set xs \<Longrightarrow> y \<in> set xs \<Longrightarrow> jid x = jid y \<Longrightarrow> x = y"
  by (induction xs) (auto simp: image_iff)

lemma find_refine_by_id:
  assumes "distinct (map jid xs)" "find (\<lambda>x. jid x = j) xs = Some e"
  shows "find (\<lambda>x. jid x = j \<and> Q x) xs = (if Q e then Some e else None)"
proof (cases "find (\<lambda>x. jid x = j \<and> Q x) xs")
  case None
  with assms show ?thesis by (auto simp: find_None_iff2 dest: find_SomeD)
next
  case (Some y)
  then have "y \<in> set xs" "jid y = j" "Q y" by (auto dest: find_SomeD)
  moreover from assms(2) have "e \<in> set xs" "jid e = j" by (auto dest: find_SomeD)
  ultimately have "y = e" using assms(1) unique_by_id by metis
  with Some \<open>Q y\<close> show ?thesis by simp
qed


lemma update_first_twice:
  assumes "distinct (map jid xs)" "find P xs \<noteq> None" "\<And>x. P x \<Longrightarrow> jid x = j"
    and "\<And>x. jid (f x) = jid x"
  shows "update_first (\<lambda>x. jid x = j) g (update_first P f xs) = update_first P (\<lambda>x. g (f x)) xs"
  using assms(1,2)
proof (induction xs)
  case Nil
  then show ?case by simp
next
  case (Cons a xs)
  show ?case
  proof (cases "P a")
    case True
    then show ?thesis using assms(3,4) by simp
  next
    case False
    with Cons.prems obtain y where y: "find P xs = Some y" by auto
    then have "y \<in> set xs" "jid y = j" using assms(3) by (auto dest: find_SomeD)
    with Cons.prems(1) have "jid a \<noteq> j" by (auto simp: image_iff)
    with False Cons y show ?thesis by simp
  qed
qed

lemma claim_SomeD:
  assumes "claim j w s = Some (s', c)"
  shows "\<exists>x. find (claimable j) (jobs s) = Some x
     \<and> c = x\<lparr>workerId := Some w, status := Assigned\<rparr>
     \<and> s' = s\<lparr>jobs := update_first (claimable j)
                          (\<lambda>x. x\<lparr>workerId := Some w, status := Assigned\<rparr>) (jobs s)\<rparr>"
  using assms by (auto simp: claim_def split: option.splits)

lemma rollback_claim:
  assumes "distinct (map jid (jobs s))" "claim j w s = Some (s', c)"
  shows "rollback j s' = s"
proof -
  from claim_SomeD[OF assms(2)] obtain x where
    x: "find (claimable j) (jobs s) = Some x" and
    s': "s' = s\<lparr>jobs := update_first (claimable j)
                          (\<lambda>x. x\<lparr>workerId := Some w, status := Assigned\<rparr>) (jobs s)\<rparr>"
    by blast
  have "update_first (\<lambda>x. jid x = j) (\<lambda>x. x\<lparr>workerId := None, status := Posted\<rparr>)
          (update_first (claimable j) (\<lambda>x. x\<lparr>workerId := Some w, status := Assigned\<rparr>) (jobs s))
        = update_first (claimable j)
            (\<lambda>x. x\<lparr>workerId := Some w, status := Assigned\<rparr>\<lparr>workerId := None, status := Posted\<rparr>) (jobs s)"
    using assms(1) x by (intro update_first_twice) (auto simp: claimable_def)
  also have "\<dots> = jobs s"
    by (rule update_first_id) (simp add: claimable_def)
  finally show ?thesis by (simp add: rollback_def updateJobById_def s')
qed

lemma claim_of_posted:
  assumes "distinct (map jid (jobs s))" "findJobById s j = Some x" "status x = Posted" "workerId x = None"
  shows "claim j w s = Some (s\<lparr>jobs := update_first (claimable j)
                          (\<lambda>x. x\<lparr>workerId := Some w, status := Assigned\<rparr>) (jobs s)\<rparr>,
                        x\<lparr>workerId := Some w, status := Assigned\<rparr>)"
proof -
  have "find (\<lambda>y. jid y = j \<and> (status y = Posted \<and> workerId y = None)) (jobs s) = Some x"
    using find_refine_by_id[OF assms(1), of j x "\<lambda>y. status y = Posted \<and> workerId y = None"] assms(2-)
    by (simp add: findJobById_def)
  then have "find (claimable j) (jobs s) = Some x"
    by (simp add: claimable_def[abs_def])
  then show ?thesis by (simp add: claim_def)
qed

lemma store_ok_update_first:
  assumes "store_ok s" and "\<And>x. jid (f x) = jid x"
    and "\<And>x. x \<in> set (jobs s) \<Longrightarrow> P x \<Longrightarrow> job_ok (f x)"
  shows "store_ok (s\<lparr>jobs := update_first P f (jobs s)\<rparr>)"
  using assms by (auto simp: store_ok_def map_jid_update_first dest!: set_update_first)

lemma set_delete_first: "y \<in> set (delete_first P xs) \<Longrightarrow> y \<in> set xs"
  by (induction xs) (auto split: if_splits)

lemma distinct_delete_first:
  "distinct (map jid xs) \<Longrightarrow> distinct (map jid (delete_first P xs))"
  by (induction xs) (auto simp: image_iff dest: set_delete_first)

lemma toString_nonempty: "toString n \<noteq> []"
  by (subst toString.simps) simp

lemma store_ok_createJob: "store_ok s \<Longrightarrow> store_ok (fst (createJob s cid sk ti de ur ad up nid now))"
  by (auto simp: createJob_def store_ok_def job_ok_def split: address_input.splits)

lemma store_ok_cancelJob: "store_ok s \<Longrightarrow> store_ok (fst (cancelJob s cid p))"
  by (auto simp: cancelJob_def store_ok_def distinct_delete_first
      split: idparam.splits option.splits dest: set_delete_first)

lemma the_job_by_id:
  assumes "distinct (map jid (jobs s))" "find (\<lambda>x. jid x = j \<and> Q x) (jobs s) = Some e"
    "x \<in> set (jobs s)" "jid x = j"
  shows "x = e"
proof -
  from assms(2) have "e \<in> set (jobs s)" "jid e = j" by (auto dest: find_SomeD)
  with assms(1,3,4) show ?thesis using unique_by_id by metis
qed

lemma store_ok_startJob: "store_ok s \<Longrightarrow> store_ok (fst (startJob s cid p))"
proof (cases p)
  case NotAnId
  assume "store_ok s" then show ?thesis using NotAnId by (simp add: startJob_def)
next
  case (ObjectId j)
  assume ok: "store_ok s"
  show ?thesis
  proof (cases "find (\<lambda>x. jid x = j \<and> clientId x = cid) (jobs s)")
    case None
    then show ?thesis using ok ObjectId by (simp add: startJob_def)
  next
    case (Some e)
    have "store_ok (s\<lparr>jobs := update_first (\<lambda>x. jid x = j) (\<lambda>x. x\<lparr>status := Active\<rparr>) (jobs s)\<rparr>)"
      if "status e = Assigned"
    proof (rule store_ok_update_first[OF ok])
      fix x assume x: "x \<in> set (jobs s)" "jid x = j"
      then have "x = e"
        using the_job_by_id[of s j "\<lambda>x. clientId x = cid" e x] ok Some by (simp add: store_ok_def)
      moreover have "job_ok e" using ok Some by (auto simp: store_ok_def dest: find_SomeD)
      ultimately show "job_ok (x\<lparr>status := Active\<rparr>)" using that by (auto simp: job_ok_def)
    qed simp
    then show ?thesis using ok ObjectId Some by (simp add: startJob_def updateJobById_def)
  qed
qed

lemma store_ok_completeJob: "store_ok s \<Longrightarrow> store_ok (fst (completeJob s cid p otp now))"
proof (cases p)
  case NotAnId
  assume "store_ok s" then show ?thesis using NotAnId by (simp add: completeJob_def)
next
  case (ObjectId j)
  assume ok: "store_ok s"
  show ?thesis
  proof (cases "find (\<lambda>x. jid x = j \<and> clientId x = cid) (jobs s)")
    case None
    then show ?thesis using ok ObjectId by (simp add: completeJob_def)
  next
    case (Some e)
    have "store_ok (s\<lparr>jobs := update_first (\<lambda>x. jid x = j)
             (\<lambda>x. x\<lparr>status := Completed, completionOTP := None\<rparr>) (jobs s)\<rparr>)"
      if "status e = Active"
    proof (rule store_ok_update_first[OF ok])
      fix x assume x: "x \<in> set (jobs s)" "jid x = j"
      then have "x = e"
        using the_job_by_id[of s j "\<lambda>x. clientId x = cid" e x] ok Some by (simp add: store_ok_def)
      moreover have "job_ok e" using ok Some by (auto simp: store_ok_def dest: find_SomeD)
      ultimately show "job_ok (x\<lparr>status := Completed, completionOTP := None\<rparr>)"
        using that by (auto simp: job_ok_def)
    qed simp
    then show ?thesis using ok ObjectId Some
      by (simp add: completeJob_def updateJobById_def Let_def)
  qed
qed

lemma store_ok_claim:
  assumes "store_ok s" "claim j w s = Some (s', c)"
  shows "store_ok s'"
proof -
  from claim_SomeD[OF assms(2)] have
    s': "s' = s\<lparr>jobs := update_first (claimable j)
                          (\<lambda>x. x\<lparr>workerId := Some w, status := Assigned\<rparr>) (jobs s)\<rparr>"
    by blast
  show ?thesis unfolding s'
  proof (rule store_ok_update_first[OF assms(1)])
    fix x assume "x \<in> set (jobs s)" "claimable j x"
    then show "job_ok (x\<lparr>workerId := Some w, status := Assigned\<rparr>)"
      using assms(1) by (auto simp: store_ok_def job_ok_def claimable_def)
  qed simp
qed

lemma store_ok_acceptJob: "store_ok s \<Longrightarrow> store_ok (fst (acceptJob s w p))"
proof (cases p)
  case NotAnId
  assume "store_ok s" then show ?thesis using NotAnId by (simp add: acceptJob_def)
next
  case (ObjectId j)
  assume ok: "store_ok s"
  show ?thesis
  proof (cases "claim j w s")
    case None
    then show ?thesis using ok ObjectId by (simp add: acceptJob_def)
  next
    case (Some a)
    obtain s' c where a: "a = (s', c)" by (cases a)
    have 1: "store_ok s'" using ok Some a store_ok_claim by blast
    have 2: "rollback j s' = s" using ok Some a rollback_claim unfolding store_ok_def by blast
    show ?thesis using ok ObjectId Some a 1 2
      by (auto simp: acceptJob_def split: option.splits)
  qed
qed

lemma store_ok_getCompletionOTP: "store_ok s \<Longrightarrow> store_ok (fst (getCompletionOTP s w p r))"
proof (cases p)
  case NotAnId
  assume "store_ok s" then show ?thesis using NotAnId by (simp add: getCompletionOTP_def)
next
  case (ObjectId j)
  assume ok: "store_ok s"
  show ?thesis
  proof (cases "find (\<lambda>x. jid x = j \<and> workerId x = Some w) (jobs s)")
    case None
    then show ?thesis using ok ObjectId by (simp add: getCompletionOTP_def)
  next
    case (Some e)
    have "store_ok (s\<lparr>jobs := update_first (\<lambda>x. jid x = j)
             (\<lambda>x. x\<lparr>completionOTP := Some (mintOTP r)\<rparr>) (jobs s)\<rparr>)"
      if "status e = Active"
    proof (rule store_ok_update_first[OF ok])
      fix x assume x: "x \<in> set (jobs s)" "jid x = j"
      then have "x = e"
        using the_job_by_id[of s j "\<lambda>x. workerId x = Some w" e x] ok Some by (simp add: store_ok_def)
      moreover have "job_ok e" using ok Some by (auto simp: store_ok_def dest: find_SomeD)
      ultimately show "job_ok (x\<lparr>completionOTP := Some (mintOTP r)\<rparr>)"
        using that by (auto simp: job_ok_def mintOTP_def toString_nonempty)
    qed simp
    then show ?thesis using ok ObjectId Some by (simp add: getCompletionOTP_def updateJobById_def)
  qed
qed

lemma store_ok_cancelJobByWorker: "store_ok s \<Longrightarrow> store_ok (fst (cancelJobByWorker s w p))"
proof (cases p)
  case NotAnId
  assume "store_ok s" then show ?thesis using NotAnId by (simp add: cancelJobByWorker_def)
next
  case (ObjectId j)
  assume ok: "store_ok s"
  have "store_ok (s\<lparr>jobs := update_first (\<lambda>x. jid x = j)
           (\<lambda>x. x\<lparr>status := Posted, workerId := None, completionOTP := None\<rparr>) (jobs s)\<rparr>)"
    by (rule store_ok_update_first[OF ok]) (auto simp: job_ok_def)
  then show ?thesis using ok ObjectId
    by (auto simp: cancelJobByWorker_def updateJobById_def split: option.splits)
qed

lemma store_ok_rateWorker: "store_ok s \<Longrightarrow> store_ok (fst (rateWorker s cid p ra re))"
  by (auto simp: rateWorker_def store_ok_def split: option.splits idparam.splits)

lemma store_ok_rateClient: "store_ok s \<Longrightarrow> store_ok (fst (rateClient s w p ra re))"
  by (auto simp: rateClient_def store_ok_def split: option.splits idparam.splits)

lemma reachable_store_ok: "reachable s \<Longrightarrow> store_ok s"
proof (induction rule: reachable.induct)
  case r_init
  show ?case by (simp add: store_ok_def)
next
  case (r_workers s ws)
  then show ?case by (simp add: store_ok_def)
qed (simp_all add: store_ok_createJob store_ok_cancelJob store_ok_startJob store_ok_completeJob
      store_ok_acceptJob store_ok_getCompletionOTP store_ok_cancelJobByWorker
      store_ok_rateWorker store_ok_rateClient)

lemma find_job_for:
  assumes "distinct (map jid (jobs s))"
  shows "find (\<lambda>x. jid x = j \<and> Q x) (jobs s) =
    (case findJobById s j of None \<Rightarrow> None | Some e \<Rightarrow> if Q e then Some e else None)"
proof (cases "findJobById s j")
  case None
  then have "find (\<lambda>x. jid x = j \<and> Q x) (jobs s) = None"
    by (auto simp: findJobById_def find_None_iff2)
  with None show ?thesis by simp
next
  case (Some e)
  then show ?thesis using find_refine_by_id[OF assms, of j e Q] by (simp add: findJobById_def)
qed

lemma findJobById_update:
  "(\<And>x. jid (f x) = jid x) \<Longrightarrow>
   findJobById (updateJobById j f s) j = map_option f (findJobById s j)"
  by (simp add: findJobById_def updateJobById_def find_update_first_by_id)


lemma incrementCompletedJobs_updateJobById:
  "incrementCompletedJobs (updateJobById j f s) w = incrementCompletedJobs s w"
  by (cases w) (simp_all add: incrementCompletedJobs_def findWorkerById_def updateJobById_def)

lemma completeJob_code:
  assumes "store_ok s"
  shows "code3_of (completeJob s cid p otp now) = 200 \<longleftrightarrow>
    (\<exists>j x. p = ObjectId j \<and> findJobById s j = Some x \<and> clientId x = cid \<and> status x = Active
        \<and> completionOTP x \<noteq> None \<and> otp = completionOTP x
        \<and> incrementCompletedJobs s (workerId x))"
proof (cases p)
  case NotAnId
  then show ?thesis by (simp add: completeJob_def)
next
  case (ObjectId j)
  have d: "distinct (map jid (jobs s))" using assms by (simp add: store_ok_def)
  show ?thesis
  proof (cases "findJobById s j")
    case None
    then show ?thesis using ObjectId by (simp add: completeJob_def find_job_for[OF d])
  next
    case (Some x)
    then have "x \<in> set (jobs s)" by (auto simp: findJobById_def dest: find_SomeD)
    then have "completionOTP x \<noteq> Some []" using assms by (auto simp: store_ok_def job_ok_def)
    then show ?thesis using ObjectId Some
      by (auto simp: completeJob_def find_job_for[OF d] falsy_def Let_def
          incrementCompletedJobs_updateJobById)
  qed
qed

lemma completeJob_stored:
  assumes "store_ok s"
  shows "fst (completeJob s cid p otp now) =
    (case p of
       NotAnId \<Rightarrow> s
     | ObjectId j \<Rightarrow>
        (case findJobById s j of
           None \<Rightarrow> s
         | Some x \<Rightarrow>
            if clientId x = cid \<and> status x = Active \<and> completionOTP x \<noteq> None
               \<and> otp = completionOTP x
            then updateJobById j (\<lambda>x. x\<lparr>status := Completed, completionOTP := None\<rparr>) s
            else s))"
proof (cases p)
  case NotAnId
  then show ?thesis by (simp add: completeJob_def)
next
  case (ObjectId j)
  have d: "distinct (map jid (jobs s))" using assms by (simp add: store_ok_def)
  show ?thesis
  proof (cases "findJobById s j")
    case None
    then show ?thesis using ObjectId by (simp add: completeJob_def find_job_for[OF d])
  next
    case (Some x)
    then have "x \<in> set (jobs s)" by (auto simp: findJobById_def dest: find_SomeD)
    then have "completionOTP x \<noteq> Some []" using assms by (auto simp: store_ok_def job_ok_def)
    then show ?thesis using ObjectId Some
      by (auto simp: completeJob_def find_job_for[OF d] falsy_def Let_def)
  qed
qed

lemma completeJob_time:
  "fst (completeJob s cid p otp now) = fst (completeJob s cid p otp now')"
  by (simp add: completeJob_def Let_def split: idparam.splits option.splits)

lemma completeJob_not_active:
  assumes "distinct (map jid (jobs s))" "findJobById s j = Some y" "clientId y = cid"
    "status y \<noteq> Active" "\<not> falsy otp"
  shows "code3_of (completeJob s cid (ObjectId j) otp now) = 400"
  using assms(2-) by (simp add: completeJob_def find_job_for[OF assms(1)])

lemma completeJob_twice:
  assumes "store_ok s" "code3_of (completeJob s cid p otp now) = 200"
  shows "code3_of (completeJob (fst (completeJob s cid p otp now)) cid p otp now') = 400"
proof -
  let ?s' = "fst (completeJob s cid p otp now)"
  have d: "distinct (map jid (jobs s))" using assms by (simp add: store_ok_def)
  have ok': "store_ok ?s'" using assms(1) by (rule store_ok_completeJob)
  then have d': "distinct (map jid (jobs ?s'))" by (simp add: store_ok_def)
  from assms obtain j x where jx: "p = ObjectId j" "findJobById s j = Some x" "clientId x = cid"
    "status x = Active" "completionOTP x \<noteq> None" "otp = completionOTP x"
    using completeJob_code by blast
  then have "x \<in> set (jobs s)" by (auto simp: findJobById_def dest: find_SomeD)
  then have nf: "\<not> falsy otp" using assms(1) jx by (auto simp: store_ok_def job_ok_def falsy_def)
  have s': "?s' = updateJobById j (\<lambda>x. x\<lparr>status := Completed, completionOTP := None\<rparr>) s"
    using completeJob_stored[OF assms(1), of cid p otp now] jx by simp
  have y: "findJobById ?s' j = Some (x\<lparr>status := Completed, completionOTP := None\<rparr>)"
    unfolding s' using jx(2) by (simp add: findJobById_update)
  have "code3_of (completeJob ?s' cid (ObjectId j) otp now') = 400"
    using d' y _ _ nf by (rule completeJob_not_active) (simp_all add: jx)
  then show ?thesis by (simp add: jx(1))
qed

lemma getCompletionOTP_success:
  assumes "distinct (map jid (jobs s))" "code3_of (getCompletionOTP s w (ObjectId j) r) = 200"
  shows "\<exists>x. findJobById s j = Some x \<and> workerId x = Some w \<and> status x = Active
     \<and> findJobById (fst (getCompletionOTP s w (ObjectId j) r)) j
          = Some (x\<lparr>completionOTP := Some (mintOTP r)\<rparr>)
     \<and> snd (snd (getCompletionOTP s w (ObjectId j) r)) = Some (mintOTP r)"
  using assms(2)
  by (auto simp: getCompletionOTP_def find_job_for[OF assms(1)] findJobById_update
      split: option.splits if_splits)

lemma getCompletionOTP_again:
  assumes "distinct (map jid (jobs s))" "findJobById s j = Some x" "workerId x = Some w" "status x = Active"
  shows "code3_of (getCompletionOTP s w (ObjectId j) r) = 200"
  using assms(2-) by (simp add: getCompletionOTP_def find_job_for[OF assms(1)])

lemma superseded_code:
  assumes "store_ok s" "findJobById s j = Some x" "clientId x = cid"
    "code3_of (getCompletionOTP s w (ObjectId j) r1) = 200"
  shows "code3_of (completeJob (fst (getCompletionOTP (fst (getCompletionOTP s w (ObjectId j) r1))
             w (ObjectId j) r2)) cid (ObjectId j) (Some (mintOTP r')) now)
         = (if mintOTP r' \<noteq> mintOTP r2 then 400
            else if incrementCompletedJobs s (Some w) then 200 else 500)"
proof -
  let ?s1 = "fst (getCompletionOTP s w (ObjectId j) r1)"
  let ?s2 = "fst (getCompletionOTP ?s1 w (ObjectId j) r2)"
  have d: "distinct (map jid (jobs s))" using assms(1) by (simp add: store_ok_def)
  have ok1: "store_ok ?s1" using assms(1) by (rule store_ok_getCompletionOTP)
  then have d1: "distinct (map jid (jobs ?s1))" by (simp add: store_ok_def)
  have ok2: "store_ok ?s2" using ok1 by (rule store_ok_getCompletionOTP)
  then have d2: "distinct (map jid (jobs ?s2))" by (simp add: store_ok_def)
  from getCompletionOTP_success[OF d assms(4)] assms(2)
  have 1: "workerId x = Some w" "status x = Active"
    "findJobById ?s1 j = Some (x\<lparr>completionOTP := Some (mintOTP r1)\<rparr>)" by auto
  have "code3_of (getCompletionOTP ?s1 w (ObjectId j) r2) = 200"
    using getCompletionOTP_again[OF d1, of j "x\<lparr>completionOTP := Some (mintOTP r1)\<rparr>" w r2] 1
    by simp
  from getCompletionOTP_success[OF d1 this] 1
  have 2: "findJobById ?s2 j = Some (x\<lparr>completionOTP := Some (mintOTP r2)\<rparr>)" by auto
  have ne: "mintOTP r' \<noteq> []" by (simp add: mintOTP_def toString_nonempty)
  have w: "incrementCompletedJobs ?s2 (Some w) = incrementCompletedJobs s (Some w)"
    by (simp add: incrementCompletedJobs_def findWorkerById_def getCompletionOTP_def
        updateJobById_def split: option.splits)
  show ?thesis using 1 2 assms(3) ne
    by (auto simp: completeJob_def find_job_for[OF d2] falsy_def Let_def
        incrementCompletedJobs_updateJobById w)
qed

lemma find_delete_first_by_id:
  "distinct (map jid xs) \<Longrightarrow> find (\<lambda>x. jid x = j) (delete_first (\<lambda>x. jid x = j) xs) = None"
  by (induction xs) (auto simp: find_None_iff2 image_iff)

lemma cancelJob_success:
  assumes "distinct (map jid (jobs s))" "code_of (cancelJob s cid p) = 200"
  shows "\<exists>j x. p = ObjectId j \<and> findJobById s j = Some x \<and> clientId x = cid
        \<and> status x \<in> {Posted, Assigned}
        \<and> fst (cancelJob s cid p) = s\<lparr>jobs := delete_first (\<lambda>x. jid x = j) (jobs s)\<rparr>"
  using assms(2)
  by (cases p) (auto simp: cancelJob_def find_job_for[OF assms(1)] split: option.splits if_splits)

lemma cancelJob_missing:
  assumes "distinct (map jid (jobs s))" "findJobById s j = None"
  shows "cancelJob s cid (ObjectId j) = (s, (404, ''Job not found''))"
  using assms(2) by (simp add: cancelJob_def find_job_for[OF assms(1)])

section \<open>The sample history, evaluated\<close>

lemma mint_example: "mintOTP (382913 / 900000) = ''482913''"
  by (simp add: mintOTP_def toString.simps digit_def)

lemma ex_posted_eq: "ex_posted = \<lparr>jobs = [ex_job], workers = [ex_plumber, ex_electrician], reviews = []\<rparr>"
  by (simp add: ex_posted_def ex_staffed_def ex_empty_def createJob_def falsy_def trim_def
      js_space_def SKILLS_def ex_job_def)

lemma ex_assigned_eq: "ex_assigned = \<lparr>jobs = [ex_job\<lparr>workerId := Some 7, status := Assigned\<rparr>],
     workers = [ex_plumber, ex_electrician], reviews = []\<rparr>"
  by (simp add: ex_assigned_def ex_posted_eq acceptJob_def activeJobs_def claim_def claimable_def
      findWorkerById_def ex_job_def ex_plumber_def ex_electrician_def)

lemma ex_active_eq: "ex_active = \<lparr>jobs = [ex_job\<lparr>workerId := Some 7, status := Active\<rparr>],
     workers = [ex_plumber, ex_electrician], reviews = []\<rparr>"
  by (simp add: ex_active_def ex_assigned_eq startJob_def updateJobById_def ex_job_def)

lemma ex_minted_eq: "ex_minted = \<lparr>jobs = [ex_job\<lparr>workerId := Some 7, status := Active,
       completionOTP := Some ''482913''\<rparr>],
     workers = [ex_plumber, ex_electrician], reviews = []\<rparr>"
  by (simp add: ex_minted_def ex_active_eq getCompletionOTP_def updateJobById_def ex_job_def
      mint_example)

lemma ex_worker_ids: "wid ex_plumber = 7" "wid ex_electrician = 8"
  by (simp_all add: ex_plumber_def ex_electrician_def)

lemma ex_plumber_valid: "validateWorker ex_plumber"
  by (simp add: validateWorker_def ex_plumber_def falsy_def SKILLS_def)

lemma ex_completed_eq: "ex_completed = \<lparr>jobs = [ex_job\<lparr>workerId := Some 7, status := Completed\<rparr>],
     workers = [ex_plumber, ex_electrician], reviews = []\<rparr>"
  using ex_plumber_valid
  by (simp add: ex_completed_def ex_minted_eq completeJob_def updateJobById_def falsy_def Let_def
      incrementCompletedJobs_def findWorkerById_def)
     (simp add: ex_job_def ex_plumber_def)

lemma reachable_ex_posted: "reachable ex_posted"
  unfolding ex_posted_def ex_staffed_def ex_empty_def
  by (intro reachable.r_create reachable.r_workers reachable.r_init)

lemma reachable_ex_active: "reachable ex_active"
  unfolding ex_active_def ex_assigned_def
  by (intro reachable.r_start reachable.r_accept reachable_ex_posted)

lemma reachable_ex_minted: "reachable ex_minted"
  unfolding ex_minted_def
  by (intro reachable.r_otp reachable_ex_active) simp_all

lemma mint_example2: "mintOTP (1 / 2) = ''550000''"
  by (simp add: mintOTP_def toString.simps digit_def)

lemma reachable_ex_completed: "reachable ex_completed"
  unfolding ex_completed_def by (intro reachable.r_complete reachable_ex_minted)

lemma ex_busy_eq: "ex_busy = \<lparr>jobs = [ex_job\<lparr>workerId := Some 7, status := Assigned\<rparr>, ex_job2],
     workers = [ex_plumber, ex_electrician], reviews = []\<rparr>"
  by (simp add: ex_busy_def ex_assigned_eq createJob_def falsy_def trim_def
      js_space_def SKILLS_def ex_job_def ex_job2_def)

text \<open>
  When the worker document fails validation, the job is stored as completed and the
  response is 500.
\<close>

lemma completeJob_worker_save_fails:
  "completeJob ex_legacy 10 (ObjectId 41) (Some ''482913'') 200
     = (\<lparr>jobs = [ex_job\<lparr>workerId := Some 7, status := Completed\<rparr>],
         workers = [ex_plumber\<lparr>skills := [''plumber'', ''welder'']\<rparr>, ex_electrician],
         reviews = []\<rparr>,
        (500, ''Error completing job''), None)"
proof -
  let ?x = "ex_job\<lparr>workerId := Some 7, status := Active, completionOTP := Some ''482913''\<rparr>"
  let ?ws = "[ex_plumber\<lparr>skills := [''plumber'', ''welder'']\<rparr>, ex_electrician]"
  let ?done = "\<lparr>jobs = [ex_job\<lparr>workerId := Some 7, status := Completed\<rparr>],
           workers = ?ws, reviews = []\<rparr>"
  have s: "ex_legacy = \<lparr>jobs = [?x], workers = ?ws, reviews = []\<rparr>"
    by (simp add: ex_legacy_def ex_minted_eq)
  have f: "find (\<lambda>x. jid x = 41 \<and> clientId x = 10) (jobs ex_legacy) = Some ?x"
    by (simp add: s) (simp add: ex_job_def)
  have x: "status ?x = Active" "completionOTP ?x = Some ''482913''" "workerId ?x = Some 7"
    by simp_all
  have u: "updateJobById 41 (\<lambda>x. x\<lparr>status := Completed, completionOTP := None\<rparr>) ex_legacy = ?done"
    by (simp add: s updateJobById_def) (simp add: ex_job_def)
  have v: "\<not> validateWorker (ex_plumber\<lparr>skills := [''plumber'', ''welder'']\<rparr>)"
    by (simp add: validateWorker_def SKILLS_def)
  have i: "\<not> incrementCompletedJobs ?done (Some 7)"
    by (simp add: incrementCompletedJobs_def findWorkerById_def ex_worker_ids v)
  show ?thesis by (simp add: completeJob_def falsy_def f x u i)
qed
section \<open>Facts about sorting, listings and runs\<close>

lemma floor_seven_halves: "\<lfloor>7 / 2 :: rat\<rfloor> = 3"
  by (simp add: floor_eq_iff)

lemma set_insort_cmp: "set (insort_cmp c x xs) = insert x (set xs)"
  by (induction xs) auto

lemma set_sort_cmp: "set (sort_cmp c xs) = set xs"
  by (induction xs) (simp_all add: sort_cmp_def set_insort_cmp)

lemma sorted_insort_cmp:
  assumes tot: "\<And>a b. 0 < c a b \<Longrightarrow> c b a \<le> 0"
    and tr: "\<And>a b d. c a b \<le> 0 \<Longrightarrow> c b d \<le> 0 \<Longrightarrow> c a d \<le> 0"
  shows "sorted_wrt (\<lambda>a b. c a b \<le> 0) xs \<Longrightarrow> sorted_wrt (\<lambda>a b. c a b \<le> 0) (insort_cmp c x xs)"
proof (induction xs)
  case Nil
  then show ?case by simp
next
  case (Cons y ys)
  show ?case
  proof (cases "c x y \<le> 0")
    case True
    with Cons.prems tr show ?thesis by auto
  next
    case False
    then have "c y x \<le> 0" using tot[of x y] by simp
    with False Cons show ?thesis by (auto simp: set_insort_cmp)
  qed
qed

lemma sorted_sort_cmp:
  assumes "\<And>a b. 0 < c a b \<Longrightarrow> c b a \<le> 0"
    and "\<And>a b d. c a b \<le> 0 \<Longrightarrow> c b d \<le> 0 \<Longrightarrow> c a d \<le> 0"
  shows "sorted_wrt (\<lambda>a b. c a b \<le> 0) (sort_cmp c xs)"
proof (induction xs)
  case Nil
  show ?case by (simp add: sort_cmp_def)
next
  case (Cons x xs)
  have "sort_cmp c (x # xs) = insort_cmp c x (sort_cmp c xs)" by (simp add: sort_cmp_def)
  with Cons sorted_insort_cmp[of c, OF assms] show ?case by simp
qed

lemma compareJobs_distance: "compareJobs ''distance'' a b \<le> 0 \<longleftrightarrow> by_distance a b"
  by (auto simp: compareJobs_def by_distance_def split: option.splits)

lemma compareJobs_other: "b \<noteq> ''distance'' \<Longrightarrow> compareJobs b x y \<le> 0 \<longleftrightarrow> by_recency x y"
  by (auto simp: compareJobs_def by_recency_def)

lemma sorted_by_distance: "sorted_wrt by_distance (sort_cmp (compareJobs ''distance'') xs)"
proof -
  have "sorted_wrt (\<lambda>a b. compareJobs ''distance'' a b \<le> 0) (sort_cmp (compareJobs ''distance'') xs)"
  proof (rule sorted_sort_cmp)
    fix a b :: "job \<times> rat option"
    assume "0 < compareJobs ''distance'' a b"
    then show "compareJobs ''distance'' b a \<le> 0"
      by (auto simp: compareJobs_def split: option.splits)
  next
    fix a b d :: "job \<times> rat option"
    assume "compareJobs ''distance'' a b \<le> 0" "compareJobs ''distance'' b d \<le> 0"
    then show "compareJobs ''distance'' a d \<le> 0"
      unfolding compareJobs_distance by (auto simp: by_distance_def split: option.splits)
  qed
  then show ?thesis by (simp add: compareJobs_distance[abs_def])
qed

lemma sorted_by_recency:
  assumes "b \<noteq> ''distance''"
  shows "sorted_wrt by_recency (sort_cmp (compareJobs b) xs)"
proof -
  have "sorted_wrt (\<lambda>x y. compareJobs b x y \<le> 0) (sort_cmp (compareJobs b) xs)"
  proof (rule sorted_sort_cmp)
    fix x y :: "job \<times> rat option"
    assume "0 < compareJobs b x y"
    then show "compareJobs b y x \<le> 0" using assms by (auto simp: compareJobs_def)
  next
    fix x y z :: "job \<times> rat option"
    assume "compareJobs b x y \<le> 0" "compareJobs b y z \<le> 0"
    then show "compareJobs b x z \<le> 0"
      unfolding compareJobs_other[OF assms] by (auto simp: by_recency_def)
  qed
  then show ?thesis by (simp add: compareJobs_other[OF assms, abs_def])
qed

lemma found_recent:
  "sorted_wrt (\<lambda>x y. createdAt y \<le> createdAt x) (sort_key (\<lambda>x. - createdAt x) xs)"
proof -
  have "sorted (map (\<lambda>x. - createdAt x) (sort_key (\<lambda>x. - createdAt x) xs))"
    by (rule sorted_sort_key)
  then show ?thesis by (simp add: sorted_map)
qed

lemma undistanced_by_recency:
  "sorted_wrt by_recency (map (\<lambda>x. (x, None)) (sort_key (\<lambda>x. - createdAt x) xs))"
  using found_recent[of xs] by (simp add: sorted_wrt_map by_recency_def)

lemma undistanced_by_distance:
  "sorted_wrt by_distance (map (\<lambda>x. (x, None)) (sort_key (\<lambda>x. - createdAt x) xs))"
  using found_recent[of xs] by (simp add: sorted_wrt_map by_distance_def)

lemma ex_job_fields:
  "jid ex_job = 41" "status ex_job = Posted" "workerId ex_job = None" "createdAt ex_job = 100"
  "skill ex_job = ''plumber''" "location (job_address ex_job) = Some (1851 / 100, 369 / 5)"
  "jid ex_far_job = 42" "status ex_far_job = Posted" "workerId ex_far_job = None"
  "createdAt ex_far_job = 150" "skill ex_far_job = ''tiler''"
  "location (job_address ex_far_job) = Some (371 / 20, 369 / 5)"
  by (simp_all add: ex_job_def ex_far_job_def ex_job2_def)

lemma ex_found:
  "sort_key (\<lambda>x. - createdAt x) (filter (matchesQuery ex_plumber ex_query) (jobs ex_market))
     = [ex_far_job, ex_job]"
  by (simp add: ex_market_def matchesQuery_def ex_query_def falsy_def ex_job_fields)

lemma ex_distances:
  "calculateJobDistances ex_road (37 / 2, 369 / 5) [ex_far_job, ex_job] = [42 \<mapsto> 111 / 20, 41 \<mapsto> 111 / 100]"
  by (simp add: calculateJobDistances_def isValidCoordinates_def hasValidLocation_def
      ex_job_fields ex_road_def)

lemma ex_sorted:
  "sort_cmp (compareJobs ''distance'') [(ex_far_job, Some (111 / 20)), (ex_job, Some (111 / 100))]
     = [(ex_job, Some (111 / 100)), (ex_far_job, Some (111 / 20))]"
  by (simp add: sort_cmp_def compareJobs_def)


lemma getAvailableJobs_located:
  assumes "findWorkerById s w = Some wk" and "location (worker_address wk) = Some wl"
    and "isValidCoordinates wl"
    and "sort_key (\<lambda>x. - createdAt x) (filter (matchesQuery wk q) (jobs s)) = found"
    and "calculateJobDistances road wl found = distances"
  shows "snd (getAvailableJobs s w q road) =
    js_slice (((case q_page q of None \<Rightarrow> 1 | Some n \<Rightarrow> n) - 1)
                * (case q_limit q of None \<Rightarrow> 50 | Some n \<Rightarrow> n))
             (((case q_page q of None \<Rightarrow> 1 | Some n \<Rightarrow> n) - 1)
                * (case q_limit q of None \<Rightarrow> 50 | Some n \<Rightarrow> n)
              + (case q_limit q of None \<Rightarrow> 50 | Some n \<Rightarrow> n))
      (sort_cmp (compareJobs (case q_sortBy q of None \<Rightarrow> ''distance'' | Some b \<Rightarrow> b))
         (filter (\<lambda>jd. inRange (case q_maxDistance q of None \<Rightarrow> Num 25 | Some m \<Rightarrow> m) (snd jd))
            (map (\<lambda>x. (x, or_null (distances (jid x)))) found)))"
  using assms by (simp add: getAvailableJobs_def Let_def hasValidLocation_def)

lemma ex_plumber_found: "findWorkerById ex_market 7 = Some ex_plumber"
  by (simp add: findWorkerById_def ex_market_def ex_plumber_def)

lemma ex_plumber_fields:
  "location (worker_address ex_plumber) = Some (37 / 2, 369 / 5)" "hasValidLocation (worker_address ex_plumber)"
  by (simp_all add: ex_plumber_def hasValidLocation_def isValidCoordinates_def)

lemma ex_listing:
  "snd (getAvailableJobs ex_market 7 ex_query ex_road) = [(ex_job, Some (111 / 100)), (ex_far_job, Some (111 / 20))]"
proof -
  have q: "q_page ex_query = None" "q_limit ex_query = None" "q_maxDistance ex_query = None"
    "q_sortBy ex_query = None" by (simp_all add: ex_query_def)
  have v: "isValidCoordinates (37 / 2, 369 / 5)" by (simp add: isValidCoordinates_def)
  have "snd (getAvailableJobs ex_market 7 ex_query ex_road)
      = js_slice 0 50 (sort_cmp (compareJobs ''distance'')
          (filter (\<lambda>jd. inRange (Num 25) (snd jd))
             (map (\<lambda>x. (x, or_null (([42 \<mapsto> 111 / 20, 41 \<mapsto> 111 / 100] :: oid \<rightharpoonup> rat) (jid x))))
                [ex_far_job, ex_job])))"
    using getAvailableJobs_located[OF ex_plumber_found ex_plumber_fields(1) v ex_found ex_distances]
    by (simp add: q)
  also have "\<dots> = js_slice 0 50 (sort_cmp (compareJobs ''distance'')
          [(ex_far_job, Some (111 / 20)), (ex_job, Some (111 / 100))])"
    by (simp add: ex_job_fields or_null_def inRange_def)
  also have "\<dots> = [(ex_job, Some (111 / 100)), (ex_far_job, Some (111 / 20))]"
    unfolding ex_sorted by (simp add: js_slice_def)
  finally show ?thesis .
qed

lemma fold_distances_other:
  "jid x \<notin> jid ` set js \<Longrightarrow>
   fold (\<lambda>y d. if hasValidLocation (job_address y)
                then d(jid y \<mapsto> road wl (the (location (job_address y)))) else d) js m (jid x)
     = m (jid x)"
  by (induction js arbitrary: m) auto

lemma fold_distances:
  "distinct (map jid js) \<Longrightarrow> x \<in> set js \<Longrightarrow>
   fold (\<lambda>y d. if hasValidLocation (job_address y)
                then d(jid y \<mapsto> road wl (the (location (job_address y)))) else d) js m (jid x)
     = (if hasValidLocation (job_address x)
        then Some (road wl (the (location (job_address x)))) else m (jid x))"
proof (induction js arbitrary: m)
  case Nil
  then show ?case by simp
next
  case (Cons a js)
  show ?case
  proof (cases "x = a")
    case True
    with Cons.prems have "jid x \<notin> jid ` set js" by auto
    then show ?thesis using True by (simp add: fold_distances_other)
  next
    case False
    with Cons.prems have "x \<in> set js" "distinct (map jid js)" "jid x \<noteq> jid a"
      by (auto simp: image_iff)
    then show ?thesis using Cons.IH by simp
  qed
qed

lemma calculateJobDistances_at:
  assumes "isValidCoordinates wl" "distinct (map jid js)" "x \<in> set js"
  shows "calculateJobDistances road wl js (jid x)
     = (if hasValidLocation (job_address x)
        then Some (road wl (the (location (job_address x)))) else None)"
  using assms by (simp add: calculateJobDistances_def fold_distances)

lemma distinct_map_insort_key:
  "distinct (map f (insort_key g x xs)) \<longleftrightarrow> f x \<notin> f ` set xs \<and> distinct (map f xs)"
  by (induction xs) (auto simp: set_insort_key)

lemma distinct_map_sort_key: "distinct (map f (sort_key g xs)) \<longleftrightarrow> distinct (map f xs)"
  by (induction xs) (auto simp: distinct_map_insort_key)




































text \<open>
  The listing before pagination: exactly the jobs of the store that pass the filter of
  the query and the distance filter, each with the distance shown, in the order of the
  request.
\<close>

lemma estimate_located:
  "location (worker_address wk) = Some wl \<Longrightarrow> isValidCoordinates wl \<Longrightarrow>
   estimate road wk x = (if hasValidLocation (job_address x)
                         then Some (road wl (the (location (job_address x)))) else None)"
  by (simp add: estimate_def)

lemma estimate_unlocated:
  "\<not> hasValidLocation (worker_address wk) \<Longrightarrow> estimate road wk x = None"
  by (cases "location (worker_address wk)") (simp_all add: estimate_def hasValidLocation_def)

lemma set_found:
  "set (sort_key (\<lambda>x. - createdAt x) (filter P xs)) = {x \<in> set xs. P x}"
  by simp

lemma whole_listing:
  assumes w: "findWorkerById s w = Some wk" and d: "distinct (map jid (jobs s))"
  shows "\<exists>L. snd (getAvailableJobs s w q road)
        = js_slice ((page_of q - 1) * limit_of q) ((page_of q - 1) * limit_of q + limit_of q) L
     \<and> set L = (\<lambda>x. (x, or_null (estimate road wk x))) `
                 {x \<in> set (jobs s). matchesQuery wk q x
                    \<and> inRange (maxDistance_of q) (or_null (estimate road wk x))}
     \<and> sorted_wrt (if (case q_sortBy q of None \<Rightarrow> ''distance'' | Some b \<Rightarrow> b) = ''distance''
                    then by_distance else by_recency) L"
proof (cases "hasValidLocation (worker_address wk)")
  case True
  then obtain wl where wl: "location (worker_address wk) = Some wl" "isValidCoordinates wl"
    by (auto simp: hasValidLocation_def split: option.splits)
  let ?found = "sort_key (\<lambda>x. - createdAt x) (filter (matchesQuery wk q) (jobs s))"
  let ?L = "sort_cmp (compareJobs (case q_sortBy q of None \<Rightarrow> ''distance'' | Some b \<Rightarrow> b))
         (filter (\<lambda>jd. inRange (maxDistance_of q) (snd jd))
            (map (\<lambda>x. (x, or_null (estimate road wk x))) ?found))"
  have df: "distinct (map jid ?found)"
    using d by (simp add: distinct_map_sort_key distinct_map_filter)
  have m: "map (\<lambda>x. (x, or_null (calculateJobDistances road wl ?found (jid x)))) ?found
      = map (\<lambda>x. (x, or_null (estimate road wk x))) ?found"
  proof (rule map_cong[OF refl])
    fix x assume "x \<in> set ?found"
    then show "(x, or_null (calculateJobDistances road wl ?found (jid x)))
        = (x, or_null (estimate road wk x))"
      using calculateJobDistances_at[OF wl(2) df, of x road] estimate_located[OF wl, of road x]
      by simp
  qed
  have eq: "snd (getAvailableJobs s w q road)
        = js_slice ((page_of q - 1) * limit_of q) ((page_of q - 1) * limit_of q + limit_of q) ?L"
    using getAvailableJobs_located[OF w wl refl refl, of q road]
    by (simp add: m page_of_def limit_of_def maxDistance_of_def)
  have st: "set ?L = (\<lambda>x. (x, or_null (estimate road wk x))) `
                 {x \<in> set (jobs s). matchesQuery wk q x
                    \<and> inRange (maxDistance_of q) (or_null (estimate road wk x))}"
    by (auto simp: set_sort_cmp)
  have so: "sorted_wrt (if (case q_sortBy q of None \<Rightarrow> ''distance'' | Some b \<Rightarrow> b) = ''distance''
                    then by_distance else by_recency) ?L"
    by (simp add: sorted_by_distance sorted_by_recency)
  show ?thesis using eq st so by blast
next
  case False
  let ?found = "sort_key (\<lambda>x. - createdAt x) (filter (matchesQuery wk q) (jobs s))"
  let ?L = "map (\<lambda>x. (x, None :: rat option)) ?found"
  have n: "estimate road wk x = None" for x using False by (rule estimate_unlocated)
  have eq: "snd (getAvailableJobs s w q road)
        = js_slice ((page_of q - 1) * limit_of q) ((page_of q - 1) * limit_of q + limit_of q) ?L"
    using w False by (simp add: getAvailableJobs_def Let_def page_of_def limit_of_def)
  have st: "set ?L = (\<lambda>x. (x, or_null (estimate road wk x))) `
                 {x \<in> set (jobs s). matchesQuery wk q x
                    \<and> inRange (maxDistance_of q) (or_null (estimate road wk x))}"
    by (auto simp: n or_null_def inRange_def)
  have so: "sorted_wrt (if (case q_sortBy q of None \<Rightarrow> ''distance'' | Some b \<Rightarrow> b) = ''distance''
                    then by_distance else by_recency) ?L"
    by (simp add: undistanced_by_distance undistanced_by_recency)
  show ?thesis using eq st so by blast
qed

lemma by_distance_closer_first:
  assumes "by_distance a b" "snd a = or_null (estimate road wk (fst a))"
    "snd b = or_null (estimate road wk (fst b))"
  shows "closer_first road wk (fst a) (fst b)"
  using assms
  by (cases "estimate road wk (fst a)"; cases "estimate road wk (fst b)")
     (auto simp: by_distance_def closer_first_def or_null_def split: if_splits)


lemma within_reach_inRange:
  "within_reach road wk q x \<Longrightarrow> inRange (maxDistance_of q) (or_null (estimate road wk x))"
  by (cases "estimate road wk x") (simp_all add: within_reach_def inRange_def or_null_def)

lemma matchesQuery_all_services:
  "q_skill q = Some ''All Services'' \<Longrightarrow>
   matchesQuery wk q x \<longleftrightarrow>
     status x = Posted \<and> workerId x = None \<and> (q_urgency q = Some ''true'' \<longrightarrow> urgency x)"
  by (simp add: matchesQuery_def falsy_def)

lemma matchesQuery_for_you:
  "q_skill q = Some ''For you'' \<Longrightarrow>
   matchesQuery wk q x \<longleftrightarrow>
     status x = Posted \<and> workerId x = None \<and> skill x \<in> set (skills wk)
     \<and> (q_urgency q = Some ''true'' \<longrightarrow> urgency x)"
  by (simp add: matchesQuery_def falsy_def)

lemma set_js_slice: "set (js_slice a b xs) \<subseteq> set xs"
  unfolding js_slice_def Let_def
  by (meson set_take_subset set_drop_subset subset_trans)

lemma js_slice_all: "int (length xs) \<le> n \<Longrightarrow> js_slice 0 n xs = xs"
  by (simp add: js_slice_def Let_def)

lemma listing_spec:
  assumes d: "distinct (map jid (jobs s))" and w: "findWorkerById s w = Some wk"
  shows "\<exists>L. snd (getAvailableJobs s w q road)
            = js_slice ((page_of q - 1) * limit_of q) ((page_of q - 1) * limit_of q + limit_of q) L
     \<and> set (snd (getAvailableJobs s w q road)) \<subseteq> set L
     \<and> (page_of q = 1 \<and> int (length L) \<le> limit_of q \<longrightarrow> snd (getAvailableJobs s w q road) = L)
     \<and> (\<forall>jd\<in>set L. fst jd \<in> set (jobs s) \<and> status (fst jd) = Posted \<and> workerId (fst jd) = None)
     \<and> (q_skill q = Some ''For you'' \<longrightarrow> (\<forall>jd\<in>set L. skill (fst jd) \<in> set (skills wk)))
     \<and> (\<forall>x\<in>set (jobs s). matchesQuery wk q x \<and> within_reach road wk q x \<longrightarrow> x \<in> fst ` set L)
     \<and> (q_skill q = Some ''All Services'' \<longrightarrow>
          (\<forall>x\<in>set (jobs s). status x = Posted \<and> workerId x = None
               \<and> (q_urgency q = Some ''true'' \<longrightarrow> urgency x) \<and> within_reach road wk q x
             \<longrightarrow> x \<in> fst ` set L))
     \<and> (q_skill q = Some ''For you'' \<longrightarrow>
          (\<forall>x\<in>set (jobs s). status x = Posted \<and> workerId x = None \<and> skill x \<in> set (skills wk)
               \<and> (q_urgency q = Some ''true'' \<longrightarrow> urgency x) \<and> within_reach road wk q x
             \<longrightarrow> x \<in> fst ` set L))
     \<and> (\<forall>jd\<in>set L. \<forall>dist. estimate road wk (fst jd) = Some dist \<and> dist \<noteq> 0 \<longrightarrow>
            snd jd = Some dist \<and> (\<exists>m. maxDistance_of q = Num m \<and> dist \<le> m))
     \<and> (q_sortBy q = None \<or> q_sortBy q = Some ''distance'' \<longrightarrow>
            sorted_wrt (closer_first road wk) (map fst L))
     \<and> (q_sortBy q \<noteq> None \<and> q_sortBy q \<noteq> Some ''distance'' \<longrightarrow>
            sorted_wrt newest_first (map fst L))"
proof -
  from whole_listing[OF w d, of q road] obtain L where
    eq: "snd (getAvailableJobs s w q road)
        = js_slice ((page_of q - 1) * limit_of q) ((page_of q - 1) * limit_of q + limit_of q) L"
    and st: "set L = (\<lambda>x. (x, or_null (estimate road wk x))) `
                 {x \<in> set (jobs s). matchesQuery wk q x
                    \<and> inRange (maxDistance_of q) (or_null (estimate road wk x))}"
    and so: "sorted_wrt (if (case q_sortBy q of None \<Rightarrow> ''distance'' | Some b \<Rightarrow> b) = ''distance''
                    then by_distance else by_recency) L"
    by blast
  have mem: "fst jd \<in> set (jobs s) \<and> matchesQuery wk q (fst jd)
      \<and> snd jd = or_null (estimate road wk (fst jd))
      \<and> inRange (maxDistance_of q) (or_null (estimate road wk (fst jd)))" if "jd \<in> set L" for jd
    using that unfolding st by auto
  have inc: "x \<in> fst ` set L"
    if "x \<in> set (jobs s)" "matchesQuery wk q x" "within_reach road wk q x" for x
  proof -
    have "(x, or_null (estimate road wk x)) \<in> set L"
      unfolding st using that(1,2) within_reach_inRange[OF that(3)] by simp
    then show ?thesis by force
  qed
  have P1: "set (snd (getAvailableJobs s w q road)) \<subseteq> set L"
    unfolding eq by (rule set_js_slice)
  have P2: "page_of q = 1 \<and> int (length L) \<le> limit_of q \<longrightarrow> snd (getAvailableJobs s w q road) = L"
    unfolding eq by (simp add: js_slice_all)
  have A: "\<forall>jd\<in>set L. fst jd \<in> set (jobs s) \<and> status (fst jd) = Posted \<and> workerId (fst jd) = None"
    using mem by (simp add: matchesQuery_def)
  have B: "q_skill q = Some ''For you'' \<longrightarrow> (\<forall>jd\<in>set L. skill (fst jd) \<in> set (skills wk))"
    using mem by (auto simp: matchesQuery_for_you)
  have C: "\<forall>x\<in>set (jobs s). matchesQuery wk q x \<and> within_reach road wk q x \<longrightarrow> x \<in> fst ` set L"
    using inc by blast
  have C1: "q_skill q = Some ''All Services'' \<longrightarrow>
          (\<forall>x\<in>set (jobs s). status x = Posted \<and> workerId x = None
               \<and> (q_urgency q = Some ''true'' \<longrightarrow> urgency x) \<and> within_reach road wk q x
             \<longrightarrow> x \<in> fst ` set L)"
  proof (intro impI ballI)
    fix x assume k: "q_skill q = Some ''All Services''" and x: "x \<in> set (jobs s)"
      and p: "status x = Posted \<and> workerId x = None
               \<and> (q_urgency q = Some ''true'' \<longrightarrow> urgency x) \<and> within_reach road wk q x"
    from p have "matchesQuery wk q x" by (simp add: matchesQuery_all_services[OF k])
    with x show "x \<in> fst ` set L" using p by (intro inc) simp_all
  qed
  have C2: "q_skill q = Some ''For you'' \<longrightarrow>
          (\<forall>x\<in>set (jobs s). status x = Posted \<and> workerId x = None \<and> skill x \<in> set (skills wk)
               \<and> (q_urgency q = Some ''true'' \<longrightarrow> urgency x) \<and> within_reach road wk q x
             \<longrightarrow> x \<in> fst ` set L)"
  proof (intro impI ballI)
    fix x assume k: "q_skill q = Some ''For you''" and x: "x \<in> set (jobs s)"
      and p: "status x = Posted \<and> workerId x = None \<and> skill x \<in> set (skills wk)
               \<and> (q_urgency q = Some ''true'' \<longrightarrow> urgency x) \<and> within_reach road wk q x"
    from p have "matchesQuery wk q x" by (simp add: matchesQuery_for_you[OF k])
    with x show "x \<in> fst ` set L" using p by (intro inc) simp_all
  qed
  have D: "\<forall>jd\<in>set L. \<forall>dist. estimate road wk (fst jd) = Some dist \<and> dist \<noteq> 0 \<longrightarrow>
            snd jd = Some dist \<and> (\<exists>m. maxDistance_of q = Num m \<and> dist \<le> m)"
  proof (intro ballI allI impI, elim conjE)
    fix jd dist assume jd: "jd \<in> set L" and e: "estimate road wk (fst jd) = Some dist" "dist \<noteq> 0"
    from mem[OF jd] e show "snd jd = Some dist \<and> (\<exists>m. maxDistance_of q = Num m \<and> dist \<le> m)"
      by (cases "maxDistance_of q") (simp_all add: or_null_def inRange_def)
  qed
  have E: "q_sortBy q = None \<or> q_sortBy q = Some ''distance'' \<longrightarrow>
            sorted_wrt (closer_first road wk) (map fst L)"
  proof
    assume "q_sortBy q = None \<or> q_sortBy q = Some ''distance''"
    then have "sorted_wrt by_distance L" using so by auto
    then have "sorted_wrt (\<lambda>a b. closer_first road wk (fst a) (fst b)) L"
    proof (rule sorted_wrt_mono_rel[rotated])
      fix a b assume "a \<in> set L" "b \<in> set L" "by_distance a b"
      then show "closer_first road wk (fst a) (fst b)"
        using mem[of a] mem[of b] by (simp add: by_distance_closer_first)
    qed
    then show "sorted_wrt (closer_first road wk) (map fst L)" by (simp add: sorted_wrt_map)
  qed
  have F: "q_sortBy q \<noteq> None \<and> q_sortBy q \<noteq> Some ''distance'' \<longrightarrow>
            sorted_wrt newest_first (map fst L)"
  proof
    assume "q_sortBy q \<noteq> None \<and> q_sortBy q \<noteq> Some ''distance''"
    then have "sorted_wrt by_recency L" using so by auto
    then show "sorted_wrt newest_first (map fst L)"
      by (simp add: sorted_wrt_map by_recency_def[abs_def] newest_first_def[abs_def])
  qed
  show ?thesis
    by (rule exI[of _ L], intro conjI) (fact eq, fact P1, fact P2, fact A, fact B, fact C, fact C1,
        fact C2, fact D, fact E, fact F)
qed

lemma ex_near_fields:
  "jid ex_near_job = 42" "status ex_near_job = Posted" "workerId ex_near_job = None"
  "createdAt ex_near_job = 150" "skill ex_near_job = ''tiler''"
  "location (job_address ex_near_job) = Some (37 / 2, 369 / 5)"
  by (simp_all add: ex_near_job_def ex_job2_def)

lemma ex_plumber_at_doorstep: "findWorkerById ex_doorstep 7 = Some ex_plumber"
  by (simp add: findWorkerById_def ex_doorstep_def ex_plumber_def)

lemma ex_found_doorstep:
  "sort_key (\<lambda>x. - createdAt x) (filter (matchesQuery ex_plumber ex_query_distance) (jobs ex_doorstep))
     = [ex_near_job, ex_job]"
  "sort_key (\<lambda>x. - createdAt x) (filter (matchesQuery ex_plumber ex_query_tight) (jobs ex_doorstep))
     = [ex_near_job, ex_job]"
  by (simp_all add: ex_doorstep_def matchesQuery_def ex_query_distance_def ex_query_tight_def
      ex_query_def falsy_def ex_job_fields ex_near_fields)

lemma ex_distances_doorstep:
  "calculateJobDistances ex_road (37 / 2, 369 / 5) [ex_near_job, ex_job] = [42 \<mapsto> 0, 41 \<mapsto> 111 / 100]"
  by (simp add: calculateJobDistances_def isValidCoordinates_def hasValidLocation_def
      ex_job_fields ex_near_fields ex_road_def)

lemma ex_sorted_doorstep:
  "sort_cmp (compareJobs ''distance'') [(ex_near_job, None), (ex_job, Some (111 / 100))]
     = [(ex_job, Some (111 / 100)), (ex_near_job, None)]"
  "sort_cmp (compareJobs ''distance'') [(ex_near_job, None)] = [(ex_near_job, None)]"
  by (simp_all add: sort_cmp_def compareJobs_def)

lemma ex_listing_doorstep:
  "snd (getAvailableJobs ex_doorstep 7 ex_query_distance ex_road)
     = [(ex_job, Some (111 / 100)), (ex_near_job, None)]"
proof -
  have q: "q_page ex_query_distance = None" "q_limit ex_query_distance = None"
    "q_maxDistance ex_query_distance = None" "q_sortBy ex_query_distance = Some ''distance''"
    by (simp_all add: ex_query_distance_def ex_query_def)
  have v: "isValidCoordinates (37 / 2, 369 / 5)" by (simp add: isValidCoordinates_def)
  have "snd (getAvailableJobs ex_doorstep 7 ex_query_distance ex_road)
      = js_slice 0 50 (sort_cmp (compareJobs ''distance'')
          (filter (\<lambda>jd. inRange (Num 25) (snd jd))
             (map (\<lambda>x. (x, or_null (([42 \<mapsto> 0, 41 \<mapsto> 111 / 100] :: oid \<rightharpoonup> rat) (jid x))))
                [ex_near_job, ex_job])))"
    using getAvailableJobs_located[OF ex_plumber_at_doorstep ex_plumber_fields(1) v
        ex_found_doorstep(1) ex_distances_doorstep]
    by (simp add: q)
  also have "\<dots> = js_slice 0 50 (sort_cmp (compareJobs ''distance'')
          [(ex_near_job, None), (ex_job, Some (111 / 100))])"
    by (simp add: ex_job_fields ex_near_fields or_null_def inRange_def)
  also have "\<dots> = [(ex_job, Some (111 / 100)), (ex_near_job, None)]"
    unfolding ex_sorted_doorstep by (simp add: js_slice_def)
  finally show ?thesis .
qed

lemma ex_listing_tight:
  "snd (getAvailableJobs ex_doorstep 7 ex_query_tight ex_road) = [(ex_near_job, None)]"
proof -
  have q: "q_page ex_query_tight = None" "q_limit ex_query_tight = None"
    "q_maxDistance ex_query_tight = Some (Num (- 1))" "q_sortBy ex_query_tight = None"
    by (simp_all add: ex_query_tight_def ex_query_def)
  have v: "isValidCoordinates (37 / 2, 369 / 5)" by (simp add: isValidCoordinates_def)
  have "snd (getAvailableJobs ex_doorstep 7 ex_query_tight ex_road)
      = js_slice 0 50 (sort_cmp (compareJobs ''distance'')
          (filter (\<lambda>jd. inRange (Num (- 1)) (snd jd))
             (map (\<lambda>x. (x, or_null (([42 \<mapsto> 0, 41 \<mapsto> 111 / 100] :: oid \<rightharpoonup> rat) (jid x))))
                [ex_near_job, ex_job])))"
    using getAvailableJobs_located[OF ex_plumber_at_doorstep ex_plumber_fields(1) v
        ex_found_doorstep(2) ex_distances_doorstep]
    by (simp add: q)
  also have "\<dots> = js_slice 0 50 (sort_cmp (compareJobs ''distance'') [(ex_near_job, None)])"
    by (simp add: ex_job_fields ex_near_fields or_null_def inRange_def)
  also have "\<dots> = [(ex_near_job, None)]"
    unfolding ex_sorted_doorstep by (simp add: js_slice_def)
  finally show ?thesis .
qed

lemma ex_estimates:
  "estimate ex_road ex_plumber ex_job = Some (111 / 100)"
  "estimate ex_road ex_plumber ex_far_job = Some (111 / 20)"
  "estimate ex_road ex_plumber ex_near_job = Some 0"
  by (simp_all add: estimate_def ex_plumber_fields ex_job_fields ex_near_fields
      hasValidLocation_def isValidCoordinates_def ex_road_def)

section \<open>Mutual exclusion of concurrent accept requests\<close>




section \<open>The outcome of a lost claim\<close>

text \<open>
  C2. When the worker passes the single-active-job check and the conditional update of
  \<^const>\<open>acceptJob\<close> matches no document, the store is left alone and the job is read
  again: 404 exactly when there is no such job, otherwise 409 exactly when the job has
  a worker, otherwise 400, and then the job is one without worker whose status is not
  \<^verbatim>\<open>posted\<close>.
\<close>

theorem acceptJob_lost_claim_outcome:
  assumes "activeJobs s w = []" and "claim j w s = None"
  shows "fst (acceptJob s w (ObjectId j)) = s
    \<and> fst (snd (acceptJob s w (ObjectId j))) \<in> {404, 409, 400}
    \<and> (fst (snd (acceptJob s w (ObjectId j))) = 404 \<longleftrightarrow> findJobById s j = None)
    \<and> (fst (snd (acceptJob s w (ObjectId j))) = 409 \<longleftrightarrow>
         (\<exists>e. findJobById s j = Some e \<and> workerId e \<noteq> None))
    \<and> (fst (snd (acceptJob s w (ObjectId j))) = 400 \<longleftrightarrow>
         (\<exists>e. findJobById s j = Some e \<and> workerId e = None \<and> status e \<noteq> Posted))"
proof -
  have r: "acceptJob s w (ObjectId j) = (s, reread s j)"
    using assms by (simp add: acceptJob_def)
  have np: "\<And>e. findJobById s j = Some e \<Longrightarrow> workerId e = None \<Longrightarrow> status e \<noteq> Posted"
  proof
    fix e assume e: "findJobById s j = Some e" "workerId e = None" "status e = Posted"
    then have "e \<in> set (jobs s)" "claimable j e"
      by (auto simp: findJobById_def claimable_def dest: find_SomeD)
    then have "find (claimable j) (jobs s) \<noteq> None" by (auto simp: find_None_iff2)
    with assms(2) show False by (auto simp: claim_def split: option.splits)
  qed
  show ?thesis
    unfolding r using np by (auto simp: reread_def split: option.splits)
qed

theorem acceptJob_lost_claim_outcome_witness:
  "activeJobs ex_assigned 8 = [] \<and> claim 41 8 ex_assigned = None
   \<and> findJobById ex_assigned 41 = Some (ex_job\<lparr>workerId := Some 7, status := Assigned\<rparr>)
   \<and> fst (acceptJob ex_assigned 8 (ObjectId 41)) = ex_assigned
   \<and> fst (snd (acceptJob ex_assigned 8 (ObjectId 41))) = 409"
proof -
  have h1: "activeJobs ex_assigned 8 = []" by (simp add: ex_assigned_eq activeJobs_def)
  have h2: "claim 41 8 ex_assigned = None"
    by (simp add: ex_assigned_eq claim_def claimable_def)
  have e: "findJobById ex_assigned 41 = Some (ex_job\<lparr>workerId := Some 7, status := Assigned\<rparr>)"
    by (simp add: ex_assigned_eq findJobById_def) (simp add: ex_job_def)
  note r = acceptJob_lost_claim_outcome[OF h1 h2]
  have "fst (snd (acceptJob ex_assigned 8 (ObjectId 41))) = 409 \<longleftrightarrow>
      (\<exists>e. findJobById ex_assigned 41 = Some e \<and> workerId e \<noteq> None)"
    by (rule r[THEN conjunct2, THEN conjunct2, THEN conjunct2, THEN conjunct1])
  then have c: "fst (snd (acceptJob ex_assigned 8 (ObjectId 41))) = 409" using e by simp
  show ?thesis
    by (intro conjI) (fact h1, fact h2, fact e, fact r[THEN conjunct1], fact c)
qed

section \<open>The compensating rollback of acceptJob\<close>

text \<open>
  C3. A worker without other job claims a posted job, so the conditional update
  succeeds; when the worker document is missing, or its skill list lacks the skill of
  the job, \<^const>\<open>acceptJob\<close> writes the rollback, after which the job is \<^verbatim>\<open>posted\<close>
  without worker, and answers 404 (no worker document) or 400 (skill), never 200.
\<close>

theorem acceptJob_compensating_rollback:
  assumes "distinct (map jid (jobs s))" and "activeJobs s w = []"
    and "findJobById s j = Some x" and "status x = Posted" and "workerId x = None"
    and "findWorkerById s w = None
         \<or> (\<exists>wk. findWorkerById s w = Some wk \<and> skill x \<notin> set (skills wk))"
  shows "(\<exists>s' c. claim j w s = Some (s', c) \<and> workerId c = Some w \<and> status c = Assigned
            \<and> fst (acceptJob s w (ObjectId j)) = rollback j s')
    \<and> (\<exists>y. findJobById (fst (acceptJob s w (ObjectId j))) j = Some y
            \<and> workerId y = None \<and> status y = Posted)
    \<and> fst (snd (acceptJob s w (ObjectId j))) = (if findWorkerById s w = None then 404 else 400)"
proof -
  let ?s' = "s\<lparr>jobs := update_first (claimable j)
                          (\<lambda>x. x\<lparr>workerId := Some w, status := Assigned\<rparr>) (jobs s)\<rparr>"
  let ?c = "x\<lparr>workerId := Some w, status := Assigned\<rparr>"
  have c: "claim j w s = Some (?s', ?c)"
    using assms(1,3,4,5) by (rule claim_of_posted)
  have w': "findWorkerById ?s' w = findWorkerById s w" by (simp add: findWorkerById_def)
  have rb: "rollback j ?s' = s" using assms(1) c by (rule rollback_claim)
  have acc: "fst (acceptJob s w (ObjectId j)) = rollback j ?s'"
    and code: "fst (snd (acceptJob s w (ObjectId j))) = (if findWorkerById s w = None then 404 else 400)"
    using assms(2,6) c w' by (auto simp: acceptJob_def)
  show ?thesis using c acc code rb assms(3,4,5) by auto
qed

theorem acceptJob_compensating_rollback_witness:
  "distinct (map jid (jobs ex_posted)) \<and> activeJobs ex_posted 8 = []
   \<and> findJobById ex_posted 41 = Some ex_job \<and> status ex_job = Posted \<and> workerId ex_job = None
   \<and> findWorkerById ex_posted 8 = Some ex_electrician
   \<and> skill ex_job \<notin> set (skills ex_electrician)
   \<and> (\<exists>y. findJobById (fst (acceptJob ex_posted 8 (ObjectId 41))) 41 = Some y
          \<and> workerId y = None \<and> status y = Posted)
   \<and> fst (snd (acceptJob ex_posted 8 (ObjectId 41))) = 400"
proof -
  have h1: "distinct (map jid (jobs ex_posted))" by (simp add: ex_posted_eq)
  have h2: "activeJobs ex_posted 8 = []" by (simp add: ex_posted_eq activeJobs_def ex_job_def)
  have h3: "findJobById ex_posted 41 = Some ex_job"
    by (simp add: ex_posted_eq findJobById_def) (simp add: ex_job_def)
  have h4: "status ex_job = Posted" and h5: "workerId ex_job = None" by (simp_all add: ex_job_def)
  have w: "findWorkerById ex_posted 8 = Some ex_electrician"
    by (simp add: ex_posted_eq findWorkerById_def ex_plumber_def ex_electrician_def)
  have k: "skill ex_job \<notin> set (skills ex_electrician)"
    by (simp add: ex_job_def ex_electrician_def)
  have h6: "findWorkerById ex_posted 8 = None
      \<or> (\<exists>wk. findWorkerById ex_posted 8 = Some wk \<and> skill ex_job \<notin> set (skills wk))"
    using w k by simp
  note r = acceptJob_compensating_rollback[OF h1 h2 h3 h4 h5 h6]
  have c: "fst (snd (acceptJob ex_posted 8 (ObjectId 41))) = 400"
    using r[THEN conjunct2, THEN conjunct2] w by simp
  show ?thesis
    by (intro conjI) (fact h1, fact h2, fact h3, fact h4, fact h5, fact w, fact k,
        fact r[THEN conjunct2, THEN conjunct1], fact c)
qed

section \<open>The completion code gate\<close>

text \<open>
  C4. The client of job 41 completes it with the code that the worker has generated,
  at time 200. The controller answers 200 and echoes \<^verbatim>\<open>completedAt\<close> = 200 in the
  response; the stored job is \<^verbatim>\<open>completed\<close> and its code is cleared. The time of
  completion is not on the stored job: \<^verbatim>\<open>completedAt\<close> is no path of the schema, the
  path \<^verbatim>\<open>completionDate\<close> that the schema declares stays unset, and the same request at
  another time leaves the very same store.
\<close>

theorem completeJob_completedAt_not_stored:
  "findJobById ex_minted 41
     = Some (ex_job\<lparr>workerId := Some 7, status := Active, completionOTP := Some ''482913''\<rparr>)
   \<and> completeJob ex_minted 10 (ObjectId 41) (Some ''482913'') 200
       = (\<lparr>jobs = [ex_job\<lparr>workerId := Some 7, status := Completed\<rparr>],
           workers = [ex_plumber, ex_electrician], reviews = []\<rparr>,
          (200, ''Job completed successfully''), Some 200)
   \<and> completionOTP (ex_job\<lparr>workerId := Some 7, status := Completed\<rparr>) = None
   \<and> completionDate (ex_job\<lparr>workerId := Some 7, status := Completed\<rparr>) = None
   \<and> fst (completeJob ex_minted 10 (ObjectId 41) (Some ''482913'') 200)
       = fst (completeJob ex_minted 10 (ObjectId 41) (Some ''482913'') 300)"
proof -
  let ?x = "ex_job\<lparr>workerId := Some 7, status := Active, completionOTP := Some ''482913''\<rparr>"
  let ?done = "\<lparr>jobs = [ex_job\<lparr>workerId := Some 7, status := Completed\<rparr>],
           workers = [ex_plumber, ex_electrician], reviews = []\<rparr>"
  have e: "findJobById ex_minted 41 = Some ?x"
    by (simp add: ex_minted_eq findJobById_def) (simp add: ex_job_def)
  have f: "find (\<lambda>x. jid x = 41 \<and> clientId x = 10) (jobs ex_minted) = Some ?x"
    by (simp add: ex_minted_eq) (simp add: ex_job_def)
  have x: "status ?x = Active" "completionOTP ?x = Some ''482913''" "workerId ?x = Some 7"
    by simp_all
  have u: "updateJobById 41 (\<lambda>x. x\<lparr>status := Completed, completionOTP := None\<rparr>) ex_minted = ?done"
    by (simp add: ex_minted_eq updateJobById_def) (simp add: ex_job_def)
  have i: "incrementCompletedJobs ?done (Some 7)"
    by (simp add: incrementCompletedJobs_def findWorkerById_def ex_worker_ids ex_plumber_valid)
  have c: "completeJob ex_minted 10 (ObjectId 41) (Some ''482913'') now
       = (?done, (200, ''Job completed successfully''), Some now)" for now
    by (simp add: completeJob_def falsy_def f x u i)
  have o: "completionOTP (ex_job\<lparr>workerId := Some 7, status := Completed\<rparr>) = None"
    and t: "completionDate (ex_job\<lparr>workerId := Some 7, status := Completed\<rparr>) = None"
    by (simp_all add: ex_job_def)
  have same: "fst (completeJob ex_minted 10 (ObjectId 41) (Some ''482913'') 200)
       = fst (completeJob ex_minted 10 (ObjectId 41) (Some ''482913'') 300)"
    by (simp add: c)
  show ?thesis by (intro conjI) (fact e, fact c, fact o, fact t, fact same)
qed

section \<open>Invariants of the job documents\<close>

text \<open>
  C5. In every store that a history of requests has produced, a job that carries a
  completion code is \<^verbatim>\<open>active\<close>.
\<close>

theorem completionOTP_only_while_active:
  assumes "reachable s" and "x \<in> set (jobs s)" and "completionOTP x \<noteq> None"
  shows "status x = Active"
  using reachable_store_ok[OF assms(1)] assms(2,3) by (auto simp: store_ok_def job_ok_def)

theorem completionOTP_only_while_active_witness:
  "reachable ex_minted
   \<and> ex_job\<lparr>workerId := Some 7, status := Active, completionOTP := Some ''482913''\<rparr>
       \<in> set (jobs ex_minted)
   \<and> completionOTP (ex_job\<lparr>workerId := Some 7, status := Active,
        completionOTP := Some ''482913''\<rparr>) \<noteq> None
   \<and> status (ex_job\<lparr>workerId := Some 7, status := Active,
        completionOTP := Some ''482913''\<rparr>) = Active"
proof -
  let ?x = "ex_job\<lparr>workerId := Some 7, status := Active, completionOTP := Some ''482913''\<rparr>"
  have h2: "?x \<in> set (jobs ex_minted)" by (simp add: ex_minted_eq)
  have h3: "completionOTP ?x \<noteq> None" by simp
  show ?thesis
    by (intro conjI) (fact reachable_ex_minted, fact h2, fact h3,
        fact completionOTP_only_while_active[OF reachable_ex_minted h2 h3])
qed

text \<open>
  C6. In every store that a history of requests has produced, a job has a worker if and
  only if its status is \<^verbatim>\<open>assigned\<close>, \<^verbatim>\<open>active\<close> or \<^verbatim>\<open>completed\<close>.
\<close>

theorem workerId_iff_assigned_active_completed:
  assumes "reachable s" and "x \<in> set (jobs s)"
  shows "workerId x \<noteq> None \<longleftrightarrow> status x \<in> {Assigned, Active, Completed}"
  using reachable_store_ok[OF assms(1)] assms(2) by (auto simp: store_ok_def job_ok_def)

theorem workerId_iff_assigned_active_completed_witness:
  "reachable ex_completed
   \<and> ex_job\<lparr>workerId := Some 7, status := Completed\<rparr> \<in> set (jobs ex_completed)
   \<and> workerId (ex_job\<lparr>workerId := Some 7, status := Completed\<rparr>) \<noteq> None
   \<and> status (ex_job\<lparr>workerId := Some 7, status := Completed\<rparr>) \<in> {Assigned, Active, Completed}
   \<and> reachable ex_posted \<and> ex_job \<in> set (jobs ex_posted)
   \<and> status ex_job \<notin> {Assigned, Active, Completed} \<and> workerId ex_job = None"
proof -
  let ?x = "ex_job\<lparr>workerId := Some 7, status := Completed\<rparr>"
  have h1: "?x \<in> set (jobs ex_completed)" by (simp add: ex_completed_eq)
  have w: "workerId ?x \<noteq> None" by simp
  have h2: "ex_job \<in> set (jobs ex_posted)" by (simp add: ex_posted_eq)
  have p: "status ex_job \<notin> {Assigned, Active, Completed}" by (simp add: ex_job_def)
  have a: "status ?x \<in> {Assigned, Active, Completed}"
    using workerId_iff_assigned_active_completed[OF reachable_ex_completed h1] w by (rule iffD1)
  have b: "workerId ex_job = None"
    using workerId_iff_assigned_active_completed[OF reachable_ex_posted h2] p by blast
  show ?thesis
    by (intro conjI) (fact reachable_ex_completed, fact h1, fact w, fact a,
        fact reachable_ex_posted, fact h2, fact p, fact b)
qed

section \<open>The single-active-job check of acceptJob\<close>

text \<open>
  C7. A worker who holds some job with status \<^verbatim>\<open>assigned\<close> or \<^verbatim>\<open>active\<close> gets 400
  from \<^const>\<open>acceptJob\<close>, whatever the requested job is (also a claimable one, and before
  the route parameter is even looked at), and the store stays as it was.
\<close>

theorem acceptJob_rejects_busy_worker:
  assumes "x \<in> set (jobs s)" and "workerId x = Some w"
    and "status x = Assigned \<or> status x = Active"
  shows "fst (snd (acceptJob s w p)) = 400 \<and> fst (acceptJob s w p) = s"
proof -
  from assms have "x \<in> set (activeJobs s w)" by (auto simp: activeJobs_def)
  then have "activeJobs s w \<noteq> []" by auto
  then show ?thesis by (simp add: acceptJob_def)
qed

theorem acceptJob_rejects_busy_worker_witness:
  "ex_job\<lparr>workerId := Some 7, status := Assigned\<rparr> \<in> set (jobs ex_busy)
   \<and> workerId (ex_job\<lparr>workerId := Some 7, status := Assigned\<rparr>) = Some 7
   \<and> (status (ex_job\<lparr>workerId := Some 7, status := Assigned\<rparr>) = Assigned
       \<or> status (ex_job\<lparr>workerId := Some 7, status := Assigned\<rparr>) = Active)
   \<and> find (claimable 42) (jobs ex_busy) = Some ex_job2
   \<and> fst (snd (acceptJob ex_busy 7 (ObjectId 42))) = 400
   \<and> fst (acceptJob ex_busy 7 (ObjectId 42)) = ex_busy"
proof -
  let ?x = "ex_job\<lparr>workerId := Some 7, status := Assigned\<rparr>"
  have h1: "?x \<in> set (jobs ex_busy)" by (simp add: ex_busy_eq)
  have h2: "workerId ?x = Some 7" by simp
  have h3: "status ?x = Assigned \<or> status ?x = Active" by simp
  have free: "find (claimable 42) (jobs ex_busy) = Some ex_job2"
    by (simp add: ex_busy_eq claimable_def ex_job_def ex_job2_def)
  note r = acceptJob_rejects_busy_worker[OF h1 h2 h3, of "ObjectId 42"]
  show ?thesis
    by (intro conjI) (fact h1, fact h2, fact h3, fact free, fact r[THEN conjunct1],
        fact r[THEN conjunct2])
qed

section \<open>The guards of the two cancellations\<close>

text \<open>
  C8. \<^const>\<open>cancelJob\<close> answers 200 only for a job of the requesting client whose
  status is \<^verbatim>\<open>posted\<close> or \<^verbatim>\<open>assigned\<close>; the job is then gone from the store and the
  same request sent again gets 404. A job of the client that is \<^verbatim>\<open>active\<close> or
  \<^verbatim>\<open>completed\<close> gets 400, a job that does not exist 404, and every answer other than
  200 leaves the store as it was. \<^const>\<open>cancelJobByWorker\<close> answers 200 only for a job
  of the requesting worker whose status is \<^verbatim>\<open>assigned\<close> or \<^verbatim>\<open>active\<close>, 400 for any
  other status of such a job, and leaves the store as it was unless it answers 200.
\<close>

theorem cancellation_guards:
  assumes "distinct (map jid (jobs s))"
  shows "(code_of (cancelJob s cid p) = 200 \<longrightarrow>
           (\<exists>j x. p = ObjectId j \<and> findJobById s j = Some x \<and> clientId x = cid
              \<and> status x \<in> {Posted, Assigned}
              \<and> findJobById (fst (cancelJob s cid p)) j = None
              \<and> code_of (cancelJob (fst (cancelJob s cid p)) cid p) = 404))
    \<and> (code_of (cancelJob s cid p) \<noteq> 200 \<longrightarrow> fst (cancelJob s cid p) = s)
    \<and> (\<forall>j x. p = ObjectId j \<and> findJobById s j = Some x \<and> clientId x = cid
          \<and> status x \<in> {Active, Completed} \<longrightarrow> code_of (cancelJob s cid p) = 400)
    \<and> (\<forall>j. p = ObjectId j \<and> findJobById s j = None \<longrightarrow> code_of (cancelJob s cid p) = 404)
    \<and> (code_of (cancelJobByWorker s w p) = 200 \<longrightarrow>
          (\<exists>j x. p = ObjectId j \<and> findJobById s j = Some x \<and> workerId x = Some w
              \<and> status x \<in> {Assigned, Active}))
    \<and> (\<forall>j x. p = ObjectId j \<and> findJobById s j = Some x \<and> workerId x = Some w
          \<and> status x \<notin> {Assigned, Active} \<longrightarrow> code_of (cancelJobByWorker s w p) = 400)
    \<and> (code_of (cancelJobByWorker s w p) \<noteq> 200 \<longrightarrow> fst (cancelJobByWorker s w p) = s)"
proof -
  have A: "code_of (cancelJob s cid p) = 200 \<longrightarrow>
           (\<exists>j x. p = ObjectId j \<and> findJobById s j = Some x \<and> clientId x = cid
              \<and> status x \<in> {Posted, Assigned}
              \<and> findJobById (fst (cancelJob s cid p)) j = None
              \<and> code_of (cancelJob (fst (cancelJob s cid p)) cid p) = 404)"
  proof
    assume "code_of (cancelJob s cid p) = 200"
    from cancelJob_success[OF assms this] obtain j x where
      jx: "p = ObjectId j" "findJobById s j = Some x" "clientId x = cid" "status x \<in> {Posted, Assigned}"
      and s': "fst (cancelJob s cid p) = s\<lparr>jobs := delete_first (\<lambda>x. jid x = j) (jobs s)\<rparr>"
      by blast
    let ?s' = "s\<lparr>jobs := delete_first (\<lambda>x. jid x = j) (jobs s)\<rparr>"
    have gone: "findJobById ?s' j = None"
      using assms by (simp add: findJobById_def find_delete_first_by_id)
    have d': "distinct (map jid (jobs ?s'))" using assms by (simp add: distinct_delete_first)
    have "cancelJob ?s' cid (ObjectId j) = (?s', (404, ''Job not found''))"
      using d' gone by (rule cancelJob_missing)
    then show "\<exists>j x. p = ObjectId j \<and> findJobById s j = Some x \<and> clientId x = cid
              \<and> status x \<in> {Posted, Assigned}
              \<and> findJobById (fst (cancelJob s cid p)) j = None
              \<and> code_of (cancelJob (fst (cancelJob s cid p)) cid p) = 404"
      using jx gone unfolding s' by simp
  qed
  have B: "code_of (cancelJob s cid p) \<noteq> 200 \<longrightarrow> fst (cancelJob s cid p) = s"
    by (auto simp: cancelJob_def split: idparam.splits option.splits)
  have C: "\<forall>j x. p = ObjectId j \<and> findJobById s j = Some x \<and> clientId x = cid
          \<and> status x \<in> {Active, Completed} \<longrightarrow> code_of (cancelJob s cid p) = 400"
    by (auto simp: cancelJob_def find_job_for[OF assms])
  have D: "\<forall>j. p = ObjectId j \<and> findJobById s j = None \<longrightarrow> code_of (cancelJob s cid p) = 404"
    using cancelJob_missing[OF assms] by auto
  have E: "code_of (cancelJobByWorker s w p) = 200 \<longrightarrow>
          (\<exists>j x. p = ObjectId j \<and> findJobById s j = Some x \<and> workerId x = Some w
              \<and> status x \<in> {Assigned, Active})"
    by (cases p) (auto simp: cancelJobByWorker_def find_job_for[OF assms] split: option.splits if_splits)
  have F: "\<forall>j x. p = ObjectId j \<and> findJobById s j = Some x \<and> workerId x = Some w
          \<and> status x \<notin> {Assigned, Active} \<longrightarrow> code_of (cancelJobByWorker s w p) = 400"
    by (auto simp: cancelJobByWorker_def find_job_for[OF assms])
  have G: "code_of (cancelJobByWorker s w p) \<noteq> 200 \<longrightarrow> fst (cancelJobByWorker s w p) = s"
    by (auto simp: cancelJobByWorker_def split: idparam.splits option.splits)
  show ?thesis using A B C D E F G by blast
qed

theorem cancellation_guards_witness:
  "distinct (map jid (jobs ex_active))
   \<and> findJobById ex_active 41 = Some (ex_job\<lparr>workerId := Some 7, status := Active\<rparr>)
   \<and> code_of (cancelJob ex_active 10 (ObjectId 41)) = 400
   \<and> fst (cancelJob ex_active 10 (ObjectId 41)) = ex_active
   \<and> findJobById ex_active 43 = None
   \<and> code_of (cancelJob ex_active 10 (ObjectId 43)) = 404"
proof -
  let ?x = "ex_job\<lparr>workerId := Some 7, status := Active\<rparr>"
  have h: "distinct (map jid (jobs ex_active))" by (simp add: ex_active_eq)
  have e: "findJobById ex_active 41 = Some ?x"
    by (simp add: ex_active_eq findJobById_def) (simp add: ex_job_def)
  have n: "findJobById ex_active 43 = None"
    by (simp add: ex_active_eq findJobById_def) (simp add: ex_job_def)
  note r = cancellation_guards[OF h, of 10 "ObjectId 41" 7]
  note r' = cancellation_guards[OF h, of 10 "ObjectId 43" 7]
  have "ObjectId 41 = ObjectId 41 \<and> findJobById ex_active 41 = Some ?x \<and> clientId ?x = 10
      \<and> status ?x \<in> {Active, Completed}" using e by (simp add: ex_job_def)
  with r[THEN conjunct2, THEN conjunct2, THEN conjunct1]
  have c: "code_of (cancelJob ex_active 10 (ObjectId 41)) = 400" by blast
  with r[THEN conjunct2, THEN conjunct1]
  have u: "fst (cancelJob ex_active 10 (ObjectId 41)) = ex_active" by simp
  from r'[THEN conjunct2, THEN conjunct2, THEN conjunct2, THEN conjunct1] n
  have m: "code_of (cancelJob ex_active 10 (ObjectId 43)) = 404" by blast
  show ?thesis
    by (intro conjI) (fact h, fact e, fact c, fact u, fact n, fact m)
qed

section \<open>The range of a rating\<close>

text \<open>
  C9, as stated, fails: the controllers compare the rating with 1 and 5 only, and the
  review schema has \<^verbatim>\<open>min\<close> and \<^verbatim>\<open>max\<close> but no test for whole numbers, so the
  rating 3.5 is accepted and stored.
\<close>

theorem rating_not_whole_counterexample:
  "code_of (rateWorker ex_completed 10 (ObjectId 41) (Some (7 / 2)) None) = 200
   \<and> map rating (reviews (fst (rateWorker ex_completed 10 (ObjectId 41) (Some (7 / 2)) None))) = [7 / 2]
   \<and> \<not> is_whole (7 / 2)"
  by (simp add: ex_completed_eq rateWorker_def ex_job_def is_whole_def floor_seven_halves)

text \<open>
  C9, amended. \<^const>\<open>rateWorker\<close> and \<^const>\<open>rateClient\<close> answer 200 only for a rating
  from 1 to 5 inclusive, whole or not, and then store one review with that rating; a
  rating that is missing, below 1 (zero included) or above 5 gets 400 and the store is
  left as it was.
\<close>

theorem rating_range_guard:
  "(code_of (rateWorker s cid p ra re) = 200 \<longrightarrow>
      (\<exists>r v. ra = Some r \<and> 1 \<le> r \<and> r \<le> 5 \<and> rating v = r \<and> reviewType v = ClientToWorker
         \<and> reviews (fst (rateWorker s cid p ra re)) = reviews s @ [v]))
   \<and> (code_of (rateClient s w p ra re) = 200 \<longrightarrow>
      (\<exists>r v. ra = Some r \<and> 1 \<le> r \<and> r \<le> 5 \<and> rating v = r \<and> reviewType v = WorkerToClient
         \<and> reviews (fst (rateClient s w p ra re)) = reviews s @ [v]))
   \<and> (ra = None \<or> (\<exists>r. ra = Some r \<and> (r < 1 \<or> 5 < r)) \<longrightarrow>
        code_of (rateWorker s cid p ra re) = 400 \<and> fst (rateWorker s cid p ra re) = s
        \<and> code_of (rateClient s w p ra re) = 400 \<and> fst (rateClient s w p ra re) = s)"
proof -
  have A: "code_of (rateWorker s cid p ra re) = 200 \<longrightarrow>
      (\<exists>r v. ra = Some r \<and> 1 \<le> r \<and> r \<le> 5 \<and> rating v = r \<and> reviewType v = ClientToWorker
         \<and> reviews (fst (rateWorker s cid p ra re)) = reviews s @ [v])"
    by (auto simp: rateWorker_def split: option.splits idparam.splits if_splits)
  have B: "code_of (rateClient s w p ra re) = 200 \<longrightarrow>
      (\<exists>r v. ra = Some r \<and> 1 \<le> r \<and> r \<le> 5 \<and> rating v = r \<and> reviewType v = WorkerToClient
         \<and> reviews (fst (rateClient s w p ra re)) = reviews s @ [v])"
    by (auto simp: rateClient_def split: option.splits idparam.splits if_splits)
  have C: "ra = None \<or> (\<exists>r. ra = Some r \<and> (r < 1 \<or> 5 < r)) \<longrightarrow>
        code_of (rateWorker s cid p ra re) = 400 \<and> fst (rateWorker s cid p ra re) = s
        \<and> code_of (rateClient s w p ra re) = 400 \<and> fst (rateClient s w p ra re) = s"
    by (auto simp: rateWorker_def rateClient_def)
  show ?thesis using A B C by blast
qed

theorem rating_range_guard_witness:
  "code_of (rateWorker ex_completed 10 (ObjectId 41) (Some 4) (Some ''Quick and tidy'')) = 200
   \<and> map rating (reviews (fst (rateWorker ex_completed 10 (ObjectId 41) (Some 4)
         (Some ''Quick and tidy'')))) = [4]
   \<and> code_of (rateWorker ex_completed 10 (ObjectId 41) (Some 6) None) = 400
   \<and> fst (rateWorker ex_completed 10 (ObjectId 41) (Some 6) None) = ex_completed
   \<and> code_of (rateClient ex_completed 7 (ObjectId 41) None None) = 400
   \<and> fst (rateClient ex_completed 7 (ObjectId 41) None None) = ex_completed"
proof -
  note r = rating_range_guard[of ex_completed 10 "ObjectId 41" "Some 4" "Some ''Quick and tidy''" 7]
  note r6 = rating_range_guard[of ex_completed 10 "ObjectId 41" "Some 6" None 7]
  note rn = rating_range_guard[of ex_completed 10 "ObjectId 41" None None 7]
  have ok: "code_of (rateWorker ex_completed 10 (ObjectId 41) (Some 4) (Some ''Quick and tidy'')) = 200"
    by (simp add: ex_completed_eq rateWorker_def ex_job_def)
  from r[THEN conjunct1] ok obtain v where
    v: "rating v = 4" "reviews (fst (rateWorker ex_completed 10 (ObjectId 41) (Some 4)
          (Some ''Quick and tidy''))) = reviews ex_completed @ [v]"
    by auto
  have stored: "map rating (reviews (fst (rateWorker ex_completed 10 (ObjectId 41) (Some 4)
         (Some ''Quick and tidy'')))) = [4]"
    unfolding v(2) using v(1) by (simp add: ex_completed_eq)
  have six: "Some (6 :: rat) = None \<or> (\<exists>r. Some (6 :: rat) = Some r \<and> (r < 1 \<or> 5 < r))" by simp
  have none: "(None :: rat option) = None \<or> (\<exists>r. (None :: rat option) = Some r \<and> (r < 1 \<or> 5 < r))"
    by simp
  from r6[THEN conjunct2, THEN conjunct2] six
  have a: "code_of (rateWorker ex_completed 10 (ObjectId 41) (Some 6) None) = 400
      \<and> fst (rateWorker ex_completed 10 (ObjectId 41) (Some 6) None) = ex_completed
      \<and> code_of (rateClient ex_completed 7 (ObjectId 41) (Some 6) None) = 400
      \<and> fst (rateClient ex_completed 7 (ObjectId 41) (Some 6) None) = ex_completed"
    by (rule mp)
  from rn[THEN conjunct2, THEN conjunct2] none
  have b: "code_of (rateWorker ex_completed 10 (ObjectId 41) None None) = 400
      \<and> fst (rateWorker ex_completed 10 (ObjectId 41) None None) = ex_completed
      \<and> code_of (rateClient ex_completed 7 (ObjectId 41) None None) = 400
      \<and> fst (rateClient ex_completed 7 (ObjectId 41) None None) = ex_completed"
    by (rule mp)
  show ?thesis
    by (intro conjI) (fact ok, fact stored, fact a[THEN conjunct1],
        fact a[THEN conjunct2, THEN conjunct1],
        fact b[THEN conjunct2, THEN conjunct2, THEN conjunct1],
        fact b[THEN conjunct2, THEN conjunct2, THEN conjunct2])
qed

section \<open>The listing of available jobs\<close>

text \<open>
  C10, as stated, fails in two places. \<^verbatim>\<open>sortBy\<close> defaults to \<^verbatim>\<open>'distance'\<close> in the
  destructuring of the query, so without \<^verbatim>\<open>sortBy\<close> a worker with coordinates gets
  the closest job first, here an older one before a newer one. And
  \<^verbatim>\<open>distances[job._id] || null\<close> turns a computed distance of zero into null: with
  \<^verbatim>\<open>sortBy='distance'\<close> the job at the worker's own coordinates is listed after a job
  1.11 km away, and with \<^verbatim>\<open>maxDistance=-1\<close> it is listed although it is farther than
  that.
\<close>

theorem listing_order_and_reach_counterexample:
  "q_sortBy ex_query = None
   \<and> snd (getAvailableJobs ex_market 7 ex_query ex_road)
       = [(ex_job, Some (111 / 100)), (ex_far_job, Some (111 / 20))]
   \<and> createdAt ex_job < createdAt ex_far_job
   \<and> \<not> sorted_wrt newest_first (map fst (snd (getAvailableJobs ex_market 7 ex_query ex_road)))
   \<and> q_sortBy ex_query_distance = Some ''distance''
   \<and> snd (getAvailableJobs ex_doorstep 7 ex_query_distance ex_road)
       = [(ex_job, Some (111 / 100)), (ex_near_job, None)]
   \<and> estimate ex_road ex_plumber ex_job = Some (111 / 100)
   \<and> estimate ex_road ex_plumber ex_near_job = Some 0
   \<and> q_maxDistance ex_query_tight = Some (Num (- 1))
   \<and> snd (getAvailableJobs ex_doorstep 7 ex_query_tight ex_road) = [(ex_near_job, None)]"
proof -
  have q: "q_sortBy ex_query = None" "q_sortBy ex_query_distance = Some ''distance''"
    "q_maxDistance ex_query_tight = Some (Num (- 1))"
    by (simp_all add: ex_query_def ex_query_distance_def ex_query_tight_def)
  have c: "createdAt ex_job < createdAt ex_far_job" by (simp add: ex_job_fields)
  have n: "\<not> sorted_wrt newest_first (map fst (snd (getAvailableJobs ex_market 7 ex_query ex_road)))"
    by (simp add: ex_listing newest_first_def ex_job_fields)
  show ?thesis
    by (intro conjI) (fact q(1), fact ex_listing, fact c, fact n, fact q(2), fact ex_listing_doorstep,
        fact ex_estimates(1), fact ex_estimates(3), fact q(3), fact ex_listing_tight)
qed

text \<open>
  C10, amended. A request of a worker without document gets 404 and no job. Otherwise
  the listing is the requested page of a list \<open>L\<close> of jobs with their distances (all
  of \<open>L\<close> on page 1 when the limit is not smaller than its length), of which the
  following holds. Every job of \<open>L\<close> is in the store, \<^verbatim>\<open>posted\<close> and
  without worker; with \<^verbatim>\<open>skill="For you"\<close> it has a skill of the worker. Every job of
  the store that passes the filter of the query and is within reach is in \<open>L\<close>: with
  \<^verbatim>\<open>"All Services"\<close> these are the posted jobs without worker of every skill (urgent
  ones when the urgency filter is on), with \<^verbatim>\<open>"For you"\<close> those with a skill of the
  worker. A job of \<open>L\<close> whose computed distance is not zero is shown with that
  distance, which is at most \<^verbatim>\<open>maxDistance\<close> (25 when not supplied). When \<^verbatim>\<open>sortBy\<close>
  is \<^verbatim>\<open>'distance'\<close> or not supplied, \<open>L\<close> is ordered by computed distance, jobs without
  one last and newest first among themselves; for every other value of \<^verbatim>\<open>sortBy\<close>
  it is ordered newest first. Jobs whose computed distance is zero are left out of
  the distance filter and of the order by distance.
\<close>

theorem getAvailableJobs_listing:
  assumes "distinct (map jid (jobs s))"
  shows "(findWorkerById s w = None \<longrightarrow>
            getAvailableJobs s w q road = ((404, ''Worker not found''), []))
   \<and> (\<forall>wk. findWorkerById s w = Some wk \<longrightarrow>
        (\<exists>L. snd (getAvailableJobs s w q road)
            = js_slice ((page_of q - 1) * limit_of q) ((page_of q - 1) * limit_of q + limit_of q) L
     \<and> set (snd (getAvailableJobs s w q road)) \<subseteq> set L
     \<and> (page_of q = 1 \<and> int (length L) \<le> limit_of q \<longrightarrow> snd (getAvailableJobs s w q road) = L)
     \<and> (\<forall>jd\<in>set L. fst jd \<in> set (jobs s) \<and> status (fst jd) = Posted \<and> workerId (fst jd) = None)
     \<and> (q_skill q = Some ''For you'' \<longrightarrow> (\<forall>jd\<in>set L. skill (fst jd) \<in> set (skills wk)))
     \<and> (\<forall>x\<in>set (jobs s). matchesQuery wk q x \<and> within_reach road wk q x \<longrightarrow> x \<in> fst ` set L)
     \<and> (q_skill q = Some ''All Services'' \<longrightarrow>
          (\<forall>x\<in>set (jobs s). status x = Posted \<and> workerId x = None
               \<and> (q_urgency q = Some ''true'' \<longrightarrow> urgency x) \<and> within_reach road wk q x
             \<longrightarrow> x \<in> fst ` set L))
     \<and> (q_skill q = Some ''For you'' \<longrightarrow>
          (\<forall>x\<in>set (jobs s). status x = Posted \<and> workerId x = None \<and> skill x \<in> set (skills wk)
               \<and> (q_urgency q = Some ''true'' \<longrightarrow> urgency x) \<and> within_reach road wk q x
             \<longrightarrow> x \<in> fst ` set L))
     \<and> (\<forall>jd\<in>set L. \<forall>dist. estimate road wk (fst jd) = Some dist \<and> dist \<noteq> 0 \<longrightarrow>
            snd jd = Some dist \<and> (\<exists>m. maxDistance_of q = Num m \<and> dist \<le> m))
     \<and> (q_sortBy q = None \<or> q_sortBy q = Some ''distance'' \<longrightarrow>
            sorted_wrt (closer_first road wk) (map fst L))
     \<and> (q_sortBy q \<noteq> None \<and> q_sortBy q \<noteq> Some ''distance'' \<longrightarrow>
            sorted_wrt newest_first (map fst L))))"
proof (intro conjI allI impI)
  assume "findWorkerById s w = None"
  then show "getAvailableJobs s w q road = ((404, ''Worker not found''), [])"
    by (simp add: getAvailableJobs_def)
next
  fix wk assume "findWorkerById s w = Some wk"
  with assms show "\<exists>L. snd (getAvailableJobs s w q road)
            = js_slice ((page_of q - 1) * limit_of q) ((page_of q - 1) * limit_of q + limit_of q) L
     \<and> set (snd (getAvailableJobs s w q road)) \<subseteq> set L
     \<and> (page_of q = 1 \<and> int (length L) \<le> limit_of q \<longrightarrow> snd (getAvailableJobs s w q road) = L)
     \<and> (\<forall>jd\<in>set L. fst jd \<in> set (jobs s) \<and> status (fst jd) = Posted \<and> workerId (fst jd) = None)
     \<and> (q_skill q = Some ''For you'' \<longrightarrow> (\<forall>jd\<in>set L. skill (fst jd) \<in> set (skills wk)))
     \<and> (\<forall>x\<in>set (jobs s). matchesQuery wk q x \<and> within_reach road wk q x \<longrightarrow> x \<in> fst ` set L)
     \<and> (q_skill q = Some ''All Services'' \<longrightarrow>
          (\<forall>x\<in>set (jobs s). status x = Posted \<and> workerId x = None
               \<and> (q_urgency q = Some ''true'' \<longrightarrow> urgency x) \<and> within_reach road wk q x
             \<longrightarrow> x \<in> fst ` set L))
     \<and> (q_skill q = Some ''For you'' \<longrightarrow>
          (\<forall>x\<in>set (jobs s). status x = Posted \<and> workerId x = None \<and> skill x \<in> set (skills wk)
               \<and> (q_urgency q = Some ''true'' \<longrightarrow> urgency x) \<and> within_reach road wk q x
             \<longrightarrow> x \<in> fst ` set L))
     \<and> (\<forall>jd\<in>set L. \<forall>dist. estimate road wk (fst jd) = Some dist \<and> dist \<noteq> 0 \<longrightarrow>
            snd jd = Some dist \<and> (\<exists>m. maxDistance_of q = Num m \<and> dist \<le> m))
     \<and> (q_sortBy q = None \<or> q_sortBy q = Some ''distance'' \<longrightarrow>
            sorted_wrt (closer_first road wk) (map fst L))
     \<and> (q_sortBy q \<noteq> None \<and> q_sortBy q \<noteq> Some ''distance'' \<longrightarrow>
            sorted_wrt newest_first (map fst L))"
    by (rule listing_spec)
qed

theorem getAvailableJobs_listing_witness:
  "distinct (map jid (jobs ex_market)) \<and> findWorkerById ex_market 7 = Some ex_plumber
   \<and> q_sortBy ex_query = None
   \<and> matchesQuery ex_plumber ex_query ex_job \<and> within_reach ex_road ex_plumber ex_query ex_job
   \<and> matchesQuery ex_plumber ex_query ex_far_job
   \<and> within_reach ex_road ex_plumber ex_query ex_far_job
   \<and> (\<exists>L. snd (getAvailableJobs ex_market 7 ex_query ex_road) = js_slice 0 50 L
         \<and> ex_job \<in> fst ` set L \<and> ex_far_job \<in> fst ` set L
         \<and> sorted_wrt (closer_first ex_road ex_plumber) (map fst L))"
proof -
  have d: "distinct (map jid (jobs ex_market))" by (simp add: ex_market_def ex_job_fields)
  have q: "q_sortBy ex_query = None" by (simp add: ex_query_def)
  have p: "page_of ex_query = 1" "limit_of ex_query = 50"
    by (simp_all add: page_of_def limit_of_def ex_query_def)
  have m: "matchesQuery ex_plumber ex_query ex_job" "matchesQuery ex_plumber ex_query ex_far_job"
    by (simp_all add: matchesQuery_def ex_query_def falsy_def ex_job_fields)
  have r: "within_reach ex_road ex_plumber ex_query ex_job"
    "within_reach ex_road ex_plumber ex_query ex_far_job"
    by (simp_all add: within_reach_def ex_estimates maxDistance_of_def ex_query_def)
  have i: "ex_job \<in> set (jobs ex_market)" "ex_far_job \<in> set (jobs ex_market)"
    by (simp_all add: ex_market_def)
  note t = getAvailableJobs_listing[OF d, of 7 ex_query ex_road, THEN conjunct2, THEN spec,
      THEN mp, OF ex_plumber_found]
  from t have E: "\<exists>L. snd (getAvailableJobs ex_market 7 ex_query ex_road) = js_slice 0 50 L
         \<and> ex_job \<in> fst ` set L \<and> ex_far_job \<in> fst ` set L
         \<and> sorted_wrt (closer_first ex_road ex_plumber) (map fst L)"
  proof (elim exE conjE)
    fix L
    assume L: "snd (getAvailableJobs ex_market 7 ex_query ex_road)
        = js_slice ((page_of ex_query - 1) * limit_of ex_query)
            ((page_of ex_query - 1) * limit_of ex_query + limit_of ex_query) L"
      and c: "\<forall>x\<in>set (jobs ex_market). matchesQuery ex_plumber ex_query x
              \<and> within_reach ex_road ex_plumber ex_query x \<longrightarrow> x \<in> fst ` set L"
      and o: "q_sortBy ex_query = None \<or> q_sortBy ex_query = Some ''distance'' \<longrightarrow>
            sorted_wrt (closer_first ex_road ex_plumber) (map fst L)"
    have 1: "snd (getAvailableJobs ex_market 7 ex_query ex_road) = js_slice 0 50 L"
      using L by (simp add: p)
    have 2: "ex_job \<in> fst ` set L" using c[rule_format, OF i(1)] m(1) r(1) by simp
    have 3: "ex_far_job \<in> fst ` set L" using c[rule_format, OF i(2)] m(2) r(2) by simp
    have 4: "sorted_wrt (closer_first ex_road ex_plumber) (map fst L)" using o q by simp
    show "\<exists>L. snd (getAvailableJobs ex_market 7 ex_query ex_road) = js_slice 0 50 L
         \<and> ex_job \<in> fst ` set L \<and> ex_far_job \<in> fst ` set L
         \<and> sorted_wrt (closer_first ex_road ex_plumber) (map fst L)"
      by (rule exI[of _ L], intro conjI) (fact 1, fact 2, fact 3, fact 4)
  qed
  show ?thesis
    by (intro conjI) (fact d, fact ex_plumber_found, fact q, fact m(1), fact r(1), fact m(2),
        fact r(2), fact E)
qed

end
